theory Spec2Isabelle
  imports Main "HOL-Library.Word" "HOL-Library.FSet"
begin

section \<open>stress-memcpy.c: memory, primitives and wrappers\<close>

text \<open>
  Memory is a store from addresses to bytes and a pointer is an address. The three
  working buffers are slices of one region, and the pattern passes pointers into the
  middle of \<open>str3\<close>, so the aliasing is kept: every primitive takes the store and
  returns the pointer it hands back together with the new store. Addresses are
  natural numbers: an object of C never wraps around the address space.
\<close>

type_synonym addr = nat
type_synonym memory = "addr \<Rightarrow> 8 word"
type_synonym memcpy_func_t = "addr \<Rightarrow> addr \<Rightarrow> nat \<Rightarrow> memory \<Rightarrow> addr \<times> memory"

definition ALIGN_SIZE :: nat where
  "ALIGN_SIZE = 64"

definition MEMCPY_MEMSIZE :: nat where
  "MEMCPY_MEMSIZE = 2048"

definition MEMCPY_LOOPS :: int where
  "MEMCPY_LOOPS = 1024"

text \<open>What \<open>pr_fail\<close> is given: the operation, the method name and, for a return
  mismatch, the pointer seen and the pointer expected.\<close>

datatype failure =
    Content_different string string string
  | Return_different string string string addr addr

text \<open>The file's static variables, and the log of \<open>pr_fail\<close>.\<close>

record mstate =
  mem :: memory
  s_args_name :: string
  s_method_name :: string
  whence :: int
  failures :: "failure list"

definition pr_fail :: "failure \<Rightarrow> mstate \<Rightarrow> mstate" where
  "pr_fail f st = st\<lparr>failures := failures st @ [f]\<rparr>"

text \<open>\<open>memcmp\<close> of the C library: 0 when the two regions hold the same \<open>n\<close> bytes,
  otherwise the sign of the first difference (bytes compared unsigned).\<close>

fun memcmp :: "memory \<Rightarrow> addr \<Rightarrow> addr \<Rightarrow> nat \<Rightarrow> int" where
  "memcmp m s1 s2 0 = 0"
| "memcmp m s1 s2 (Suc n) =
     (if m s1 = m s2 then memcmp m (s1 + 1) (s2 + 1) n
      else if m s1 < m s2 then - 1 else 1)"

definition memcpy_check_func :: "memcpy_func_t \<Rightarrow> addr \<Rightarrow> addr \<Rightarrow> nat \<Rightarrow> mstate \<Rightarrow> addr \<times> mstate" where
  "memcpy_check_func func dest src n st =
     (let (ptr, m') = func dest src n (mem st);
          st1 = st\<lparr>mem := m'\<rparr>;
          st2 = (if memcmp m' dest src n \<noteq> 0
                 then pr_fail (Content_different (s_args_name st1) (s_method_name st1) ''memcpy'') st1
                 else st1);
          st3 = (if ptr \<noteq> dest
                 then pr_fail (Return_different (s_args_name st2) (s_method_name st2) ''memcpy'' ptr dest) st2
                 else st2)
      in (ptr, st3))"

definition memcpy_no_check_func :: "memcpy_func_t \<Rightarrow> addr \<Rightarrow> addr \<Rightarrow> nat \<Rightarrow> mstate \<Rightarrow> addr \<times> mstate" where
  "memcpy_no_check_func func dest src n st =
     (let (ptr, m') = func dest src n (mem st) in (ptr, st\<lparr>mem := m'\<rparr>))"

definition memmove_check_func :: "memcpy_func_t \<Rightarrow> addr \<Rightarrow> addr \<Rightarrow> nat \<Rightarrow> mstate \<Rightarrow> addr \<times> mstate" where
  "memmove_check_func func dest src n st =
     (let (ptr, m') = func dest src n (mem st);
          st1 = st\<lparr>mem := m'\<rparr>;
          st2 = (if memcmp m' dest src n \<noteq> 0
                 then pr_fail (Content_different (s_args_name st1) (s_method_name st1) ''memmove'') st1
                 else st1);
          st3 = (if ptr \<noteq> dest
                 then pr_fail (Return_different (s_args_name st2) (s_method_name st2) ''memmove'' ptr dest) st2
                 else st2)
      in (ptr, st3))"

definition memmove_no_check_func :: "memcpy_func_t \<Rightarrow> addr \<Rightarrow> addr \<Rightarrow> nat \<Rightarrow> mstate \<Rightarrow> addr \<times> mstate" where
  "memmove_no_check_func func dest src n st =
     (let (ptr, m') = func dest src n (mem st) in (ptr, st\<lparr>mem := m'\<rparr>))"

text \<open>The two function pointers \<open>memcpy_check\<close> and \<open>memmove_check\<close> are set once by
  \<open>stress_memcpy\<close> from the verify flag; the flag stands for their value.\<close>

definition memcpy_check :: "bool \<Rightarrow> memcpy_func_t \<Rightarrow> addr \<Rightarrow> addr \<Rightarrow> nat \<Rightarrow> mstate \<Rightarrow> addr \<times> mstate" where
  "memcpy_check verify = (if verify then memcpy_check_func else memcpy_no_check_func)"

definition memmove_check :: "bool \<Rightarrow> memcpy_func_t \<Rightarrow> addr \<Rightarrow> addr \<Rightarrow> nat \<Rightarrow> mstate \<Rightarrow> addr \<times> mstate" where
  "memmove_check verify = (if verify then memmove_check_func else memmove_no_check_func)"

subsection \<open>The naive primitives\<close>

text \<open>The forward loop \<open>for (i = 0; i < n; i++) *(cdest++) = *(csrc++)\<close>.\<close>

function naive_forward :: "nat \<Rightarrow> nat \<Rightarrow> addr \<Rightarrow> addr \<Rightarrow> memory \<Rightarrow> memory" where
  "naive_forward i n cdest csrc m =
     (if i < n then naive_forward (i + 1) n (cdest + 1) (csrc + 1) (m(cdest := m csrc)) else m)"
  by pat_completeness auto
termination
  by (relation "measure (\<lambda>(i, n, cdest, csrc, m). n - i)") auto

text \<open>The reverse loop \<open>for (i = 0; i < n; i++) *(--cdest) = *(--csrc)\<close>.\<close>

function naive_reverse :: "nat \<Rightarrow> nat \<Rightarrow> addr \<Rightarrow> addr \<Rightarrow> memory \<Rightarrow> memory" where
  "naive_reverse i n cdest csrc m =
     (if i < n then naive_reverse (i + 1) n (cdest - 1) (csrc - 1) (m(cdest - 1 := m (csrc - 1))) else m)"
  by pat_completeness auto
termination
  by (relation "measure (\<lambda>(i, n, cdest, csrc, m). n - i)") auto

declare naive_forward.simps [simp del] naive_reverse.simps [simp del]

definition TEST_NAIVE_MEMCPY :: memcpy_func_t where
  "TEST_NAIVE_MEMCPY dest src n m = (dest, naive_forward 0 n dest src m)"

definition TEST_NAIVE_MEMMOVE :: memcpy_func_t where
  "TEST_NAIVE_MEMMOVE dest src n m =
     (if dest < src then (dest, naive_forward 0 n dest src m)
      else (dest, naive_reverse 0 n (dest + n) (src + n) m))"

text \<open>The five instances of each macro differ in their compiler hints only.\<close>

definition test_naive_memcpy :: memcpy_func_t where
  "test_naive_memcpy = TEST_NAIVE_MEMCPY"

definition test_naive_memcpy_o0 :: memcpy_func_t where
  "test_naive_memcpy_o0 = TEST_NAIVE_MEMCPY"

definition test_naive_memcpy_o1 :: memcpy_func_t where
  "test_naive_memcpy_o1 = TEST_NAIVE_MEMCPY"

definition test_naive_memcpy_o2 :: memcpy_func_t where
  "test_naive_memcpy_o2 = TEST_NAIVE_MEMCPY"

definition test_naive_memcpy_o3 :: memcpy_func_t where
  "test_naive_memcpy_o3 = TEST_NAIVE_MEMCPY"

definition test_naive_memmove :: memcpy_func_t where
  "test_naive_memmove = TEST_NAIVE_MEMMOVE"

definition test_naive_memmove_o0 :: memcpy_func_t where
  "test_naive_memmove_o0 = TEST_NAIVE_MEMMOVE"

definition test_naive_memmove_o1 :: memcpy_func_t where
  "test_naive_memmove_o1 = TEST_NAIVE_MEMMOVE"

definition test_naive_memmove_o2 :: memcpy_func_t where
  "test_naive_memmove_o2 = TEST_NAIVE_MEMMOVE"

definition test_naive_memmove_o3 :: memcpy_func_t where
  "test_naive_memmove_o3 = TEST_NAIVE_MEMMOVE"

text \<open>The store after a copy of \<open>n\<close> bytes that reads every source byte as it was
  before the call: the contract of \<open>memmove\<close>, and of \<open>memcpy\<close> on regions that do
  not overlap.\<close>

definition copied :: "addr \<Rightarrow> addr \<Rightarrow> nat \<Rightarrow> memory \<Rightarrow> memory" where
  "copied dest src n m = (\<lambda>a. if dest \<le> a \<and> a < dest + n then m (src + (a - dest)) else m a)"

subsection \<open>The primitives of the C library and of the compiler\<close>

text \<open>\<open>memmove\<close> copies as if through a temporary buffer. \<open>memcpy\<close> does the same on
  regions that do not overlap, the only ones the pattern hands it (overlap is undefined
  in C; the model gives it the same store). \<open>__builtin_memcpy\<close> and
  \<open>__builtin_memmove\<close> have the contracts of the functions they stand for.\<close>

definition memcpy :: memcpy_func_t where
  "memcpy dest src n m = (dest, copied dest src n m)"

definition memmove :: memcpy_func_t where
  "memmove dest src n m = (dest, copied dest src n m)"

definition builtin_memcpy :: memcpy_func_t where
  "builtin_memcpy dest src n m = (dest, copied dest src n m)"

definition builtin_memmove :: memcpy_func_t where
  "builtin_memmove dest src n m = (dest, copied dest src n m)"

definition stress_builtin_memcpy_wrapper :: memcpy_func_t where
  "stress_builtin_memcpy_wrapper dst src n m = builtin_memcpy dst src n m"

definition stress_builtin_memmove_wrapper :: memcpy_func_t where
  "stress_builtin_memmove_wrapper dst src n m = builtin_memmove dst src n m"

subsection \<open>The inner pattern and the methods\<close>

text \<open>One pass of the eight steps, as \<open>stress_memcpy_libc\<close>, the first branch of
  \<open>stress_memcpy_builtin\<close> and the macro \<open>STRESS_MEMCPY_NAIVE\<close> write it, with the
  copy and the move primitive as parameters. The casts to void drop the pointers.\<close>

definition pattern :: "bool \<Rightarrow> memcpy_func_t \<Rightarrow> memcpy_func_t \<Rightarrow> addr \<Rightarrow> addr \<Rightarrow> addr \<Rightarrow> mstate \<Rightarrow> mstate" where
  "pattern verify cpy move str1 str2 str3 st0 =
     (let st1 = snd (memcpy_check verify cpy str3 str2 MEMCPY_MEMSIZE st0);
          st2 = snd (memcpy_check verify cpy str2 str3 (MEMCPY_MEMSIZE div 2) st1);
          st3 = snd (memmove_check verify move str3 (str3 + 64) (MEMCPY_MEMSIZE - 64) st2);
          st4 = snd (memcpy_check verify cpy str1 str2 MEMCPY_MEMSIZE st3);
          st5 = snd (memmove_check verify move (str3 + 64) str3 (MEMCPY_MEMSIZE - 64) st4);
          st6 = snd (memcpy_check verify cpy str3 str1 MEMCPY_MEMSIZE st5);
          st7 = snd (memmove_check verify move (str3 + 1) str3 (MEMCPY_MEMSIZE - 1) st6);
          st8 = snd (memmove_check verify move str3 (str3 + 1) (MEMCPY_MEMSIZE - 1) st7)
      in st8)"

text \<open>The pass of the second branch of \<open>stress_memcpy_builtin\<close> (no compiler
  intrinsics). Its fourth and sixth lines name \<open>b\<close> where the other methods name
  \<open>str2\<close> and \<open>str3\<close>; the file declares no \<open>b\<close>, so the address it stands for is a
  parameter.\<close>

definition pattern_builtin_libc :: "bool \<Rightarrow> addr \<Rightarrow> addr \<Rightarrow> addr \<Rightarrow> addr \<Rightarrow> mstate \<Rightarrow> mstate" where
  "pattern_builtin_libc verify b str1 str2 str3 st0 =
     (let st1 = snd (memcpy_check verify memcpy str3 str2 MEMCPY_MEMSIZE st0);
          st2 = snd (memcpy_check verify memcpy str2 str3 (MEMCPY_MEMSIZE div 2) st1);
          st3 = snd (memmove_check verify memmove str3 (str3 + 64) (MEMCPY_MEMSIZE - 64) st2);
          st4 = snd (memcpy_check verify memcpy str1 b MEMCPY_MEMSIZE st3);
          st5 = snd (memmove_check verify memmove (str3 + 64) str3 (MEMCPY_MEMSIZE - 64) st4);
          st6 = snd (memcpy_check verify memcpy b str1 MEMCPY_MEMSIZE st5);
          st7 = snd (memmove_check verify memmove (str3 + 1) str3 (MEMCPY_MEMSIZE - 1) st6);
          st8 = snd (memmove_check verify memmove str3 (str3 + 1) (MEMCPY_MEMSIZE - 1) st7)
      in st8)"

text \<open>\<open>for (i = 0; i < MEMCPY_LOOPS; i++) body\<close>.\<close>

function memcpy_loops :: "int \<Rightarrow> (mstate \<Rightarrow> mstate) \<Rightarrow> mstate \<Rightarrow> mstate" where
  "memcpy_loops i body st = (if i < MEMCPY_LOOPS then memcpy_loops (i + 1) body (body st) else st)"
  by pat_completeness auto
termination
  by (relation "measure (\<lambda>(i, body, st). nat (MEMCPY_LOOPS - i))") auto

declare memcpy_loops.simps [simp del]

definition stress_memcpy_libc :: "bool \<Rightarrow> addr \<Rightarrow> addr \<Rightarrow> addr \<Rightarrow> mstate \<Rightarrow> mstate" where
  "stress_memcpy_libc verify str1 str2 str3 st =
     memcpy_loops 0 (pattern verify memcpy memmove str1 str2 str3) (st\<lparr>s_method_name := ''libc''\<rparr>)"

text \<open>\<open>have_builtin\<close> says whether \<open>HAVE_BUILTIN_MEMCPY\<close> and \<open>HAVE_BUILTIN_MEMMOVE\<close>
  are both defined.\<close>

definition stress_memcpy_builtin :: "bool \<Rightarrow> addr \<Rightarrow> bool \<Rightarrow> addr \<Rightarrow> addr \<Rightarrow> addr \<Rightarrow> mstate \<Rightarrow> mstate" where
  "stress_memcpy_builtin have_builtin b verify str1 str2 str3 st =
     (if have_builtin
      then memcpy_loops 0
             (pattern verify stress_builtin_memcpy_wrapper stress_builtin_memmove_wrapper str1 str2 str3)
             (st\<lparr>s_method_name := ''builtin''\<rparr>)
      else memcpy_loops 0 (pattern_builtin_libc verify b str1 str2 str3)
             (st\<lparr>s_method_name := ''builtin (libc)''\<rparr>))"

definition STRESS_MEMCPY_NAIVE :: "string \<Rightarrow> memcpy_func_t \<Rightarrow> memcpy_func_t \<Rightarrow> bool \<Rightarrow> addr \<Rightarrow> addr \<Rightarrow> addr \<Rightarrow> mstate \<Rightarrow> mstate" where
  "STRESS_MEMCPY_NAIVE method cpy move verify str1 str2 str3 st =
     memcpy_loops 0 (pattern verify cpy move str1 str2 str3) (st\<lparr>s_method_name := method\<rparr>)"

definition stress_memcpy_naive :: "bool \<Rightarrow> addr \<Rightarrow> addr \<Rightarrow> addr \<Rightarrow> mstate \<Rightarrow> mstate" where
  "stress_memcpy_naive = STRESS_MEMCPY_NAIVE ''naive'' test_naive_memcpy test_naive_memmove"

definition stress_memcpy_naive_o0 :: "bool \<Rightarrow> addr \<Rightarrow> addr \<Rightarrow> addr \<Rightarrow> mstate \<Rightarrow> mstate" where
  "stress_memcpy_naive_o0 = STRESS_MEMCPY_NAIVE ''naive_o0'' test_naive_memcpy_o0 test_naive_memmove_o0"

definition stress_memcpy_naive_o1 :: "bool \<Rightarrow> addr \<Rightarrow> addr \<Rightarrow> addr \<Rightarrow> mstate \<Rightarrow> mstate" where
  "stress_memcpy_naive_o1 = STRESS_MEMCPY_NAIVE ''naive_o1'' test_naive_memcpy_o1 test_naive_memmove_o1"

definition stress_memcpy_naive_o2 :: "bool \<Rightarrow> addr \<Rightarrow> addr \<Rightarrow> addr \<Rightarrow> mstate \<Rightarrow> mstate" where
  "stress_memcpy_naive_o2 = STRESS_MEMCPY_NAIVE ''naive_o2'' test_naive_memcpy_o2 test_naive_memmove_o2"

definition stress_memcpy_naive_o3 :: "bool \<Rightarrow> addr \<Rightarrow> addr \<Rightarrow> addr \<Rightarrow> mstate \<Rightarrow> mstate" where
  "stress_memcpy_naive_o3 = STRESS_MEMCPY_NAIVE ''naive_o3'' test_naive_memcpy_o3 test_naive_memmove_o3"

text \<open>The switch on the static cursor \<open>whence\<close>. In the default case the method runs
  first and the cursor is reset after it.\<close>

definition stress_memcpy_all :: "bool \<Rightarrow> addr \<Rightarrow> bool \<Rightarrow> addr \<Rightarrow> addr \<Rightarrow> addr \<Rightarrow> mstate \<Rightarrow> mstate" where
  "stress_memcpy_all have_builtin b verify str1 str2 str3 st =
     (if whence st = 0 then
        stress_memcpy_libc verify str1 str2 str3 (st\<lparr>whence := whence st + 1\<rparr>)
      else if whence st = 1 then
        stress_memcpy_builtin have_builtin b verify str1 str2 str3 (st\<lparr>whence := whence st + 1\<rparr>)
      else if whence st = 2 then
        stress_memcpy_naive verify str1 str2 str3 (st\<lparr>whence := whence st + 1\<rparr>)
      else if whence st = 3 then
        stress_memcpy_naive_o0 verify str1 str2 str3 (st\<lparr>whence := whence st + 1\<rparr>)
      else
        (stress_memcpy_naive_o3 verify str1 str2 str3 st)\<lparr>whence := 0\<rparr>)"

text \<open>The state \<open>stress_memcpy\<close> starts the loop of method calls in: the statics as the
  file initialises them (\<open>whence\<close> is 0, the method name is empty), the name of the
  stressor instance, and the store the buffers live in. The buffers are three slices
  of one region: \<open>str1 = buf\<close>, \<open>str2 = str1 + MEMCPY_MEMSIZE\<close>,
  \<open>str3 = str2 + MEMCPY_MEMSIZE\<close>.\<close>

definition initial_state :: "string \<Rightarrow> memory \<Rightarrow> mstate" where
  "initial_state name m =
     \<lparr>mem = m, s_args_name = name, s_method_name = [], whence = 0, failures = []\<rparr>"

definition str1_of :: "addr \<Rightarrow> addr" where
  "str1_of buf = buf"

definition str2_of :: "addr \<Rightarrow> addr" where
  "str2_of buf = str1_of buf + MEMCPY_MEMSIZE"

definition str3_of :: "addr \<Rightarrow> addr" where
  "str3_of buf = str2_of buf + MEMCPY_MEMSIZE"

section \<open>core-affinity.c\<close>

text \<open>The build with \<open>HAVE_SCHED_SETAFFINITY\<close>: the two operations of the first branch
  of the file. Without it the bind operation only exits and the migrate operation only
  returns its input.\<close>

subsection \<open>CPU sets, the environment and the diagnostics\<close>

text \<open>Modelled from the spec: \<open>cpu_set_t\<close> and its macros come from \<open>sched.h\<close>, which is
  not part of the sources. The spec's CPU mask is a set of CPU indices, held in an
  opaque bitset: here a finite set of integers, with \<open>CPU_ZERO\<close> the empty set,
  \<open>CPU_SET\<close> and \<open>CPU_CLR\<close> adding and removing one index and \<open>CPU_COUNT\<close> the number
  of indices in the set.\<close>

type_synonym cpu_set_t = "int fset"

definition CPU_ZERO :: cpu_set_t where
  "CPU_ZERO = {||}"

definition CPU_SET :: "int \<Rightarrow> cpu_set_t \<Rightarrow> cpu_set_t" where
  "CPU_SET cpu cset = finsert cpu cset"

definition CPU_CLR :: "int \<Rightarrow> cpu_set_t \<Rightarrow> cpu_set_t" where
  "CPU_CLR cpu cset = cset |-| {|cpu|}"

definition CPU_COUNT :: "cpu_set_t \<Rightarrow> nat" where
  "CPU_COUNT cset = fcard cset"

text \<open>What the two operations consume from the harness, the C library and the kernel:
  the number of configured processors (an \<open>int32_t\<close>), whether the argument could be
  duplicated, the change-cpu bit of \<open>g_opt_flags\<close>, the mask \<open>sched_getaffinity\<close>
  delivers (\<open>None\<close> when it fails), whether \<open>sched_setaffinity\<close> accepts a mask, and the
  CPU \<open>stress_get_cpu\<close> reports: before any mask is applied (\<open>None\<close>) and after the call
  has applied one.\<close>

record environment =
  stress_get_processors_configured :: "32 word"
  stress_const_optdup_ok :: bool
  opt_flags_change_cpu :: bool
  sched_getaffinity :: "cpu_set_t option"
  sched_setaffinity :: "cpu_set_t \<Rightarrow> bool"
  stress_get_cpu :: "cpu_set_t option \<Rightarrow> 32 word"

text \<open>Every path that ends in \<open>_exit(EXIT_FAILURE)\<close>, with what its diagnostic prints.\<close>

datatype exit_failure =
    Not_allowed int int
  | Invalid_number string
  | Expecting_number string
  | Invalid_range string
  | Out_of_memory string
  | Cannot_set_affinity

subsection \<open>The C library: sscanf, strstr, strtok\<close>

definition isspace :: "char \<Rightarrow> bool" where
  "isspace c = (of_char c \<in> {32, 9, 10, 11, 12, 13 :: nat})"

definition isdigit :: "char \<Rightarrow> bool" where
  "isdigit c = (48 \<le> (of_char c :: nat) \<and> (of_char c :: nat) \<le> 57)"

definition digit_value :: "char \<Rightarrow> int" where
  "digit_value c = int (of_char c) - 48"

text \<open>The digits a decimal conversion consumes: it stops at the first character that
  is not a digit.\<close>

fun scan_digits :: "int \<Rightarrow> string \<Rightarrow> int" where
  "scan_digits acc [] = acc"
| "scan_digits acc (c # cs) = (if isdigit c then scan_digits (acc * 10 + digit_value c) cs else acc)"

text \<open>What the conversion stores in the \<open>int\<close>: the value itself when it fits. Beyond
  that C leaves the result undefined; glibc saturates at the range of \<open>long\<close> and keeps
  the low 32 bits.\<close>

definition store_int :: "int \<Rightarrow> int" where
  "store_int v = sint (word_of_int (max (- (2 ^ 63)) (min (2 ^ 63 - 1) v)) :: 32 word)"

text \<open>\<open>sscanf(str, "%d", &val)\<close>: white space is skipped, an optional sign is read,
  then digits. \<open>None\<close> when no digit follows (the call does not return 1), otherwise
  the value stored. Whatever follows the digits is left unread.\<close>

definition sscanf_d :: "string \<Rightarrow> int option" where
  "sscanf_d str =
     (let s = dropWhile isspace str;
          neg = (s \<noteq> [] \<and> hd s = CHR ''-'');
          ds = (if s \<noteq> [] \<and> (hd s = CHR ''-'' \<or> hd s = CHR ''+'') then tl s else s)
      in if ds \<noteq> [] \<and> isdigit (hd ds)
         then Some (store_int (if neg then - scan_digits 0 ds else scan_digits 0 ds))
         else None)"

text \<open>\<open>strstr(haystack, needle)\<close>: the first suffix of the haystack that starts with the
  needle.\<close>

fun strstr :: "string \<Rightarrow> string \<Rightarrow> string option" where
  "strstr [] needle = (if needle = [] then Some [] else None)"
| "strstr (c # cs) needle =
     (if take (length needle) (c # cs) = needle then Some (c # cs) else strstr cs needle)"

text \<open>\<open>strtok\<close> on what is left of the string: leading delimiters are skipped; \<open>None\<close>
  when nothing is left, otherwise the token up to the next delimiter and the rest
  after that delimiter.\<close>

definition strtok :: "string \<Rightarrow> string \<Rightarrow> (string \<times> string) option" where
  "strtok s delim =
     (let s1 = dropWhile (\<lambda>c. c \<in> set delim) s
      in if s1 = [] then None
         else Some (takeWhile (\<lambda>c. c \<notin> set delim) s1, drop 1 (dropWhile (\<lambda>c. c \<notin> set delim) s1)))"

subsection \<open>The bind operation\<close>

definition stress_check_cpu_affinity_range :: "int \<Rightarrow> int \<Rightarrow> exit_failure option" where
  "stress_check_cpu_affinity_range max_cpus cpu =
     (if cpu < 0 \<or> (max_cpus \<noteq> - 1 \<and> cpu \<ge> max_cpus)
      then Some (Not_allowed cpu (max_cpus - 1)) else None)"

definition stress_parse_cpu :: "string \<Rightarrow> exit_failure + int" where
  "stress_parse_cpu str = (case sscanf_d str of None \<Rightarrow> Inl (Invalid_number str) | Some val \<Rightarrow> Inr val)"

text \<open>The body of the token loop up to the two range checks: the pair \<open>(lo, hi)\<close>, or
  the exit it runs into.\<close>

definition parse_token :: "int \<Rightarrow> string \<Rightarrow> exit_failure + (int \<times> int)" where
  "parse_token max_cpus token =
     (let tmpptr = strstr token ''-'' in
      case stress_parse_cpu token of
        Inl e \<Rightarrow> Inl e
      | Inr lo \<Rightarrow>
          (case (case tmpptr of
                   None \<Rightarrow> Inr lo
                 | Some t \<Rightarrow>
                     (if tl t \<noteq> [] then
                        (case stress_parse_cpu (tl t) of
                           Inl e \<Rightarrow> Inl e
                         | Inr hi \<Rightarrow> if hi < lo then Inl (Invalid_range token) else Inr hi)
                      else Inl (Expecting_number token))) of
             Inl e \<Rightarrow> Inl e
           | Inr hi \<Rightarrow>
               (case stress_check_cpu_affinity_range max_cpus lo of
                  Some e \<Rightarrow> Inl e
                | None \<Rightarrow>
                    (case stress_check_cpu_affinity_range max_cpus hi of
                       Some e \<Rightarrow> Inl e
                     | None \<Rightarrow> Inr (lo, hi)))))"

text \<open>\<open>for (i = lo; i <= hi; i++) CPU_SET(i, &set)\<close>. The range checks before it keep
  \<open>hi\<close> below \<open>max_cpus\<close>, so \<open>i\<close> does not overflow unless the bound is disabled.\<close>

function set_cpus :: "int \<Rightarrow> int \<Rightarrow> cpu_set_t \<Rightarrow> cpu_set_t" where
  "set_cpus i hi cset = (if i \<le> hi then set_cpus (i + 1) hi (CPU_SET i cset) else cset)"
  by pat_completeness auto
termination
  by (relation "measure (\<lambda>(i, hi, cset). nat (hi + 1 - i))") auto

declare set_cpus.simps [simp del]

text \<open>The loop over the tokens \<open>strtok\<close> delivers, on what is left of the string.\<close>

function token_loop :: "int \<Rightarrow> string \<Rightarrow> cpu_set_t \<Rightarrow> exit_failure + cpu_set_t" where
  "token_loop max_cpus s cset =
     (case strtok s '','' of
        None \<Rightarrow> Inr cset
      | Some (token, rest) \<Rightarrow>
          (case parse_token max_cpus token of
             Inl e \<Rightarrow> Inl e
           | Inr (lo, hi) \<Rightarrow> token_loop max_cpus rest (set_cpus lo hi cset)))"
  by pat_completeness auto
termination
proof (relation "measure (\<lambda>(max_cpus, s, cset). length s)")
  show "wf (measure (\<lambda>(max_cpus, s, cset). length s))"
    by simp
next
  fix max_cpus :: int and s :: string and cset :: cpu_set_t
    and x2 :: "string \<times> string" and token rest :: string
    and b :: "int \<times> int" and lo hi :: int
  assume tok: "strtok s '','' = Some x2" and x2: "(token, rest) = x2"
  let ?s1 = "dropWhile (\<lambda>c. c \<in> set '','') s"
  from tok x2 have ne: "?s1 \<noteq> []"
    and rest: "rest = drop 1 (dropWhile (\<lambda>c. c \<notin> set '','') ?s1)"
    by (auto simp: strtok_def Let_def split: if_splits)
  have "length rest \<le> length ?s1 - 1"
    unfolding rest using length_dropWhile_le [of "\<lambda>c. c \<notin> set '',''" ?s1] by simp
  moreover have "length ?s1 \<le> length s"
    by (rule length_dropWhile_le)
  moreover have "0 < length ?s1"
    using ne by simp
  ultimately have "length rest < length s"
    by linarith
  then show "((max_cpus, rest, set_cpus lo hi cset), (max_cpus, s, cset))
      \<in> measure (\<lambda>(max_cpus, s, cset). length s)"
    by simp
qed

declare token_loop.simps [simp del]

text \<open>\<open>stress_set_cpu_affinity\<close>: an exit, or the return of 0 with the mask that is now
  cached in \<open>stress_affinity_cpu_set\<close>.\<close>

definition stress_set_cpu_affinity :: "environment \<Rightarrow> string \<Rightarrow> exit_failure + cpu_set_t" where
  "stress_set_cpu_affinity env arg =
     (let max_cpus = sint (stress_get_processors_configured env) in
      if \<not> stress_const_optdup_ok env then Inl (Out_of_memory arg)
      else
        (case token_loop max_cpus arg CPU_ZERO of
           Inl e \<Rightarrow> Inl e
         | Inr cset \<Rightarrow> if \<not> sched_setaffinity env cset then Inl Cannot_set_affinity else Inr cset))"

subsection \<open>The migrate operation\<close>

text \<open>\<open>stress_change_cpu\<close> on the cached mask \<open>stress_affinity_cpu_set\<close>: the value it
  returns, and the mask it hands to \<open>sched_setaffinity\<close> (\<open>None\<close> when it returns before
  the call).\<close>

definition stress_change_cpu :: "environment \<Rightarrow> cpu_set_t \<Rightarrow> int \<Rightarrow> int \<times> cpu_set_t option" where
  "stress_change_cpu env stress_affinity_cpu_set old_cpu =
     (if \<not> opt_flags_change_cpu env then (old_cpu, None)
      else
        (case (if CPU_COUNT stress_affinity_cpu_set = 0 then sched_getaffinity env
               else Some stress_affinity_cpu_set) of
           None \<Rightarrow> (old_cpu, None)
         | Some mask0 \<Rightarrow>
             (let from_cpu = (if old_cpu < 0 then sint (stress_get_cpu env None) else old_cpu);
                  cmask = (if old_cpu < 0 then mask0
                          else if CPU_COUNT mask0 > 1 then CPU_CLR from_cpu mask0 else mask0)
              in if sched_setaffinity env cmask
                 then (sint (stress_get_cpu env (Some cmask)), Some cmask)
                 else (from_cpu, Some cmask))))"

section \<open>Sample data\<close>

text \<open>A store whose byte at an address is the address (modulo 256), and a primitive
  that copies nothing and returns a pointer other than its destination.\<close>

definition byte_of_addr :: memory where
  "byte_of_addr a = word_of_nat a"

definition broken_primitive :: memcpy_func_t where
  "broken_primitive dest src n m = (dest + 1, m)"

text \<open>A host with four processors whose kernel accepts every mask but the empty one
  and runs the task on the lowest CPU of the mask it was given (on CPU 2 before any
  mask is applied), and the same host with a kernel that refuses every mask.\<close>

definition sample_get_cpu :: "cpu_set_t option \<Rightarrow> 32 word" where
  "sample_get_cpu applied =
     (case applied of
        None \<Rightarrow> 2
      | Some cpus \<Rightarrow> if 0 |\<in>| cpus then 0 else if 1 |\<in>| cpus then 1 else if 2 |\<in>| cpus then 2 else 3)"

definition sample_env :: environment where
  "sample_env =
     \<lparr>stress_get_processors_configured = 4, stress_const_optdup_ok = True,
      opt_flags_change_cpu = True, sched_getaffinity = Some {|0, 1, 2, 3|},
      sched_setaffinity = (\<lambda>cpus. cpus \<noteq> {||}), stress_get_cpu = sample_get_cpu\<rparr>"

definition refusing_env :: environment where
  "refusing_env = sample_env\<lparr>sched_setaffinity := (\<lambda>cpus. False)\<rparr>"

section \<open>The stores the proofs speak of\<close>

text \<open>The store after one pass of the pattern over the three buffers at \<open>buf\<close>, when
  the primitives keep their contracts: \<open>str1\<close> holds what \<open>str2\<close> holds, \<open>str3\<close> holds
  it too up to its last byte, which repeats the byte before it. \<open>both_from_str2\<close> is
  the store after the sixth step.\<close>

definition pass_store :: "addr \<Rightarrow> memory \<Rightarrow> memory" where
  "pass_store buf m =
     (\<lambda>a. if buf \<le> a \<and> a < buf + 2048 then m (a + 2048)
          else if buf + 4096 \<le> a \<and> a < buf + 6143 then m (a - 2048)
          else if a = buf + 6143 then m (buf + 4094)
          else m a)"

definition both_from_str2 :: "addr \<Rightarrow> memory \<Rightarrow> memory" where
  "both_from_str2 buf m =
     (\<lambda>a. if buf \<le> a \<and> a < buf + 2048 then m (a + 2048)
          else if buf + 4096 \<le> a \<and> a < buf + 6144 then m (a - 2048)
          else m a)"


text \<open>A store whose only byte that is not zero is the last byte of \<open>str2\<close>, for the
  buffers at address 0.\<close>

definition str2_last_byte :: memory where
  "str2_last_byte a = (if a = 4095 then 1 else 0)"


text \<open>A store whose only byte that is not zero is the byte of \<open>str2\<close> at index 64, for
  the buffers at address 0.\<close>

definition str2_byte_64 :: memory where
  "str2_byte_64 a = (if a = 2112 then 1 else 0)"

text \<open>The store after one pass of the second branch of the builtin method, with \<open>b\<close>
  standing for \<open>str2\<close> and for \<open>str3\<close>, and the stores after its fifth step (\<open>b\<close> for
  \<open>str2\<close>) and its sixth step (\<open>b\<close> for \<open>str3\<close>).\<close>

definition pass_store_b_str2 :: "addr \<Rightarrow> memory \<Rightarrow> memory" where
  "pass_store_b_str2 buf m =
     (\<lambda>a. if buf \<le> a \<and> a < buf + 2048 then m (a + 2048)
          else if buf + 4096 \<le> a \<and> a < buf + 4160 then m (a - 1984)
          else if buf + 4160 \<le> a \<and> a < buf + 6143 then m (a - 2048)
          else if a = buf + 6143 then m (buf + 4094)
          else m a)"

definition pass_store_b_str3 :: "addr \<Rightarrow> memory \<Rightarrow> memory" where
  "pass_store_b_str3 buf m =
     (\<lambda>a. if buf \<le> a \<and> a < buf + 1984 then m (a + 2112)
          else if buf + 1984 \<le> a \<and> a < buf + 2048 then m (a + 2048)
          else if buf + 4096 \<le> a \<and> a < buf + 6080 then m (a - 1984)
          else if buf + 6080 \<le> a \<and> a < buf + 6143 then m (a - 2048)
          else if a = buf + 6143 then m (buf + 4094)
          else m a)"

definition after_step_5 :: "addr \<Rightarrow> memory \<Rightarrow> memory" where
  "after_step_5 buf m =
     (\<lambda>a. if buf \<le> a \<and> a < buf + 2048 then m (a + 2048)
          else if buf + 4096 \<le> a \<and> a < buf + 4160 then m (a - 1984)
          else if buf + 4160 \<le> a \<and> a < buf + 6144 then m (a - 2048)
          else m a)"

definition after_step_6_b_str3 :: "addr \<Rightarrow> memory \<Rightarrow> memory" where
  "after_step_6_b_str3 buf m =
     (\<lambda>a. if buf \<le> a \<and> a < buf + 1984 then m (a + 2112)
          else if buf + 1984 \<le> a \<and> a < buf + 2048 then m (a + 2048)
          else if buf + 4096 \<le> a \<and> a < buf + 6080 then m (a - 1984)
          else if buf + 6080 \<le> a \<and> a < buf + 6144 then m (a - 2048)
          else m a)"


section \<open>The grammar of the CPU list\<close>

text \<open>The spec's grammar, written down next to the parser to compare the two: a list is
  items separated by commas, an item is a CPU or a range of two CPUs joined by a minus
  sign, and a CPU is a decimal numeral, a non-empty string of digits. \<open>cpu_value\<close> is the
  number a numeral denotes, \<open>list_text\<close> the string of a list of items, \<open>item_valid\<close> the
  validation rules (every CPU below \<open>max_cpus\<close>, the ends of a range in order) and
  \<open>union_of_items\<close> the union of what the items contribute.\<close>

datatype item = Cpu string | Range string string

definition is_cpu :: "string \<Rightarrow> bool" where
  "is_cpu s = (s \<noteq> [] \<and> list_all isdigit s)"

definition cpu_value :: "string \<Rightarrow> int" where
  "cpu_value s = foldl (\<lambda>v c. v * 10 + digit_value c) 0 s"

fun item_text :: "item \<Rightarrow> string" where
  "item_text (Cpu s) = s"
| "item_text (Range lo hi) = lo @ ''-'' @ hi"

fun list_text :: "item list \<Rightarrow> string" where
  "list_text [] = []"
| "list_text [x] = item_text x"
| "list_text (x # y # ys) = item_text x @ '','' @ list_text (y # ys)"

fun item_valid :: "int \<Rightarrow> item \<Rightarrow> bool" where
  "item_valid max_cpus (Cpu s) = (is_cpu s \<and> cpu_value s < max_cpus)"
| "item_valid max_cpus (Range lo hi) =
     (is_cpu lo \<and> is_cpu hi \<and> cpu_value lo \<le> cpu_value hi \<and> cpu_value hi < max_cpus)"

fun item_cpus :: "item \<Rightarrow> int fset" where
  "item_cpus (Cpu s) = {|cpu_value s|}"
| "item_cpus (Range lo hi) = fset_of_list [cpu_value lo..cpu_value hi]"

definition union_of_items :: "item list \<Rightarrow> int fset" where
  "union_of_items items = ffUnion (fset_of_list (map item_cpus items))"


text \<open>A token in which \<open>sscanf\<close> finds no integer: after optional white space and an
  optional sign, no digit follows. \<open>items_prefix\<close> is the text of items that come before
  some other token, each followed by its comma.\<close>

definition no_integer :: "string \<Rightarrow> bool" where
  "no_integer tok =
     (let s = dropWhile isspace tok;
          ds = (if s \<noteq> [] \<and> (hd s = CHR ''-'' \<or> hd s = CHR ''+'') then tl s else s)
      in ds = [] \<or> \<not> isdigit (hd ds))"

definition items_prefix :: "item list \<Rightarrow> string" where
  "items_prefix items = concat (map (\<lambda>it. item_text it @ '','') items)"


text \<open>The sample host with eight processors.\<close>

definition eight_cpus_env :: environment where
  "eight_cpus_env = sample_env\<lparr>stress_get_processors_configured := 8\<rparr>"

section \<open>Properties of the naive primitives\<close>

lemma naive_forward_effect:
  "cdest \<le> csrc \<or> csrc + (n - i) \<le> cdest \<Longrightarrow>
   naive_forward i n cdest csrc m a =
     (if cdest \<le> a \<and> a < cdest + (n - i) then m (csrc + (a - cdest)) else m a)"
proof (induction i n cdest csrc m rule: naive_forward.induct)
  case (1 i n cdest csrc m)
  show ?case
  proof (cases "i < n")
    case False
    then show ?thesis by (subst naive_forward.simps) auto
  next
    case True
    have pre: "cdest + 1 \<le> csrc + 1 \<or> csrc + 1 + (n - (i + 1)) \<le> cdest + 1"
      using "1.prems" True by auto
    have step: "naive_forward i n cdest csrc m a =
        naive_forward (i + 1) n (cdest + 1) (csrc + 1) (m(cdest := m csrc)) a"
      using True by (subst naive_forward.simps) simp
    show ?thesis
      unfolding step "1.IH" [OF True pre]
      using "1.prems" True by (auto simp: Suc_diff_Suc)
  qed
qed

lemma naive_reverse_effect:
  "n - i \<le> csrc \<Longrightarrow> csrc \<le> cdest \<Longrightarrow>
   naive_reverse i n cdest csrc m a =
     (if cdest - (n - i) \<le> a \<and> a < cdest then m (csrc - (cdest - a)) else m a)"
proof (induction i n cdest csrc m rule: naive_reverse.induct)
  case (1 i n cdest csrc m)
  show ?case
  proof (cases "i < n")
    case False
    then show ?thesis by (subst naive_reverse.simps) auto
  next
    case True
    have pre1: "n - (i + 1) \<le> csrc - 1" and pre2: "csrc - 1 \<le> cdest - 1"
      using "1.prems" True by auto
    have step: "naive_reverse i n cdest csrc m a =
        naive_reverse (i + 1) n (cdest - 1) (csrc - 1) (m(cdest - 1 := m (csrc - 1))) a"
      using True by (subst naive_reverse.simps) simp
    show ?thesis
      unfolding step "1.IH" [OF True pre1 pre2]
      using "1.prems" True by (auto simp: Suc_diff_Suc)
  qed
qed

lemma TEST_NAIVE_MEMMOVE_copied:
  "TEST_NAIVE_MEMMOVE dest src n m = (dest, copied dest src n m)"
proof (cases "dest < src")
  case True
  then have "naive_forward 0 n dest src m = copied dest src n m"
    by (intro ext) (simp add: naive_forward_effect copied_def)
  with True show ?thesis by (simp add: TEST_NAIVE_MEMMOVE_def)
next
  case False
  have "naive_reverse 0 n (dest + n) (src + n) m a = copied dest src n m a" for a
    using False by (subst naive_reverse_effect) (auto simp: copied_def)
  then have "naive_reverse 0 n (dest + n) (src + n) m = copied dest src n m"
    by (intro ext)
  with False show ?thesis by (simp add: TEST_NAIVE_MEMMOVE_def)
qed

lemma TEST_NAIVE_MEMCPY_copied:
  "dest \<le> src \<or> src + n \<le> dest \<Longrightarrow> TEST_NAIVE_MEMCPY dest src n m = (dest, copied dest src n m)"
  by (simp add: TEST_NAIVE_MEMCPY_def naive_forward_effect copied_def fun_eq_iff)

lemma naive_instances:
  "test_naive_memcpy = TEST_NAIVE_MEMCPY" "test_naive_memcpy_o0 = TEST_NAIVE_MEMCPY"
  "test_naive_memcpy_o1 = TEST_NAIVE_MEMCPY" "test_naive_memcpy_o2 = TEST_NAIVE_MEMCPY"
  "test_naive_memcpy_o3 = TEST_NAIVE_MEMCPY"
  "test_naive_memmove = TEST_NAIVE_MEMMOVE" "test_naive_memmove_o0 = TEST_NAIVE_MEMMOVE"
  "test_naive_memmove_o1 = TEST_NAIVE_MEMMOVE" "test_naive_memmove_o2 = TEST_NAIVE_MEMMOVE"
  "test_naive_memmove_o3 = TEST_NAIVE_MEMMOVE"
  by (simp_all add: test_naive_memcpy_def test_naive_memcpy_o0_def test_naive_memcpy_o1_def
      test_naive_memcpy_o2_def test_naive_memcpy_o3_def test_naive_memmove_def
      test_naive_memmove_o0_def test_naive_memmove_o1_def test_naive_memmove_o2_def
      test_naive_memmove_o3_def)

text \<open>
  Claim C3. The naive move keeps the contract of \<open>memmove\<close>: whatever the destination,
  the source and the length, and however the two regions overlap, each of the \<open>n\<close>
  bytes of the destination holds afterwards what the matching byte of the source held
  before the call. The naive move and the naive copy both return the destination
  pointer.
\<close>

theorem naive_memmove_contract:
  "(\<forall>i<n. snd (test_naive_memmove dest src n m) (dest + i) = m (src + i)) \<and>
   fst (test_naive_memmove dest src n m) = dest \<and>
   fst (test_naive_memcpy dest src n m) = dest"
  by (simp add: naive_instances TEST_NAIVE_MEMMOVE_copied copied_def TEST_NAIVE_MEMCPY_def)

theorem naive_memmove_contract_witness:
  "snd (test_naive_memmove 1 0 3 byte_of_addr) (1 + 2) = byte_of_addr (0 + 2) \<and>
   snd (test_naive_memmove 0 1 3 byte_of_addr) (0 + 2) = byte_of_addr (1 + 2) \<and>
   snd (test_naive_memmove 5 5 3 byte_of_addr) (5 + 2) = byte_of_addr (5 + 2) \<and>
   fst (test_naive_memmove 1 0 3 byte_of_addr) = 1 \<and>
   fst (test_naive_memcpy 1 0 3 byte_of_addr) = 1"
proof -
  have lt: "(2::nat) < 3" by simp
  show ?thesis
    using naive_memmove_contract [of 3 1 0 byte_of_addr]
      naive_memmove_contract [of 3 0 1 byte_of_addr]
      naive_memmove_contract [of 3 5 5 byte_of_addr] lt
    by blast
qed

section \<open>Properties of the checking wrappers\<close>

text \<open>
  Claim C10. For every wrapped primitive and all arguments, a checking wrapper returns
  the pointer the primitive returned, which is also what the wrapper without checks
  returns, and leaves the store as the primitive left it. The two wrappers differ in
  the failure log only: with the log put back, the state after the checking wrapper is
  the state after the other one. This holds too when a comparison fails: the failure
  is logged and the primitive's own pointer, not the destination, is returned.
\<close>

theorem check_wrappers_forward:
  "fst (memcpy_check_func f dest src n st) = fst (f dest src n (mem st)) \<and>
   fst (memcpy_check_func f dest src n st) = fst (memcpy_no_check_func f dest src n st) \<and>
   mem (snd (memcpy_check_func f dest src n st)) = snd (f dest src n (mem st)) \<and>
   (snd (memcpy_check_func f dest src n st))\<lparr>failures := failures st\<rparr> =
     snd (memcpy_no_check_func f dest src n st) \<and>
   fst (memmove_check_func f dest src n st) = fst (f dest src n (mem st)) \<and>
   fst (memmove_check_func f dest src n st) = fst (memmove_no_check_func f dest src n st) \<and>
   mem (snd (memmove_check_func f dest src n st)) = snd (f dest src n (mem st)) \<and>
   (snd (memmove_check_func f dest src n st))\<lparr>failures := failures st\<rparr> =
     snd (memmove_no_check_func f dest src n st)"
  by (simp add: memcpy_check_func_def memcpy_no_check_func_def memmove_check_func_def
      memmove_no_check_func_def pr_fail_def Let_def split: prod.split)

theorem check_wrappers_forward_witness:
  "fst (memcpy_check_func broken_primitive 8 0 1 (initial_state ''memcpy'' byte_of_addr)) = 9 \<and>
   fst (memcpy_no_check_func broken_primitive 8 0 1 (initial_state ''memcpy'' byte_of_addr)) = 9 \<and>
   mem (snd (memcpy_check_func broken_primitive 8 0 1 (initial_state ''memcpy'' byte_of_addr)))
     = byte_of_addr \<and>
   failures (snd (memcpy_check_func broken_primitive 8 0 1 (initial_state ''memcpy'' byte_of_addr)))
     = [Content_different ''memcpy'' [] ''memcpy'', Return_different ''memcpy'' [] ''memcpy'' 9 8]"
proof -
  have log: "failures (snd (memcpy_check_func broken_primitive 8 0 1 (initial_state ''memcpy'' byte_of_addr)))
     = [Content_different ''memcpy'' [] ''memcpy'', Return_different ''memcpy'' [] ''memcpy'' 9 8]"
    by (simp add: memcpy_check_func_def broken_primitive_def initial_state_def byte_of_addr_def
        pr_fail_def)
  have prim: "broken_primitive 8 0 1 (mem (initial_state ''memcpy'' byte_of_addr)) = (9, byte_of_addr)"
    by (simp add: broken_primitive_def initial_state_def)
  show ?thesis
    using check_wrappers_forward [of broken_primitive 8 0 1 "initial_state ''memcpy'' byte_of_addr"]
      log prim
    by simp
qed

section \<open>The round robin of the method all\<close>

lemma wrapper_statics:
  "s_method_name (snd (memcpy_check verify f dest src n st)) = s_method_name st"
  "whence (snd (memcpy_check verify f dest src n st)) = whence st"
  "s_method_name (snd (memmove_check verify f dest src n st)) = s_method_name st"
  "whence (snd (memmove_check verify f dest src n st)) = whence st"
  by (simp_all add: memcpy_check_def memmove_check_def memcpy_check_func_def
      memcpy_no_check_func_def memmove_check_func_def memmove_no_check_func_def pr_fail_def
      Let_def split: prod.split)

lemma wrapper_mem:
  "mem (snd (memcpy_check verify f dest src n st)) = snd (f dest src n (mem st))"
  "mem (snd (memmove_check verify f dest src n st)) = snd (f dest src n (mem st))"
  by (simp_all add: memcpy_check_def memmove_check_def memcpy_check_func_def
      memcpy_no_check_func_def memmove_check_func_def memmove_no_check_func_def pr_fail_def
      Let_def split: prod.split)

lemma pattern_statics:
  "s_method_name (pattern verify cpy move str1 str2 str3 st) = s_method_name st"
  "whence (pattern verify cpy move str1 str2 str3 st) = whence st"
  "s_method_name (pattern_builtin_libc verify b str1 str2 str3 st) = s_method_name st"
  "whence (pattern_builtin_libc verify b str1 str2 str3 st) = whence st"
  by (simp_all add: pattern_def pattern_builtin_libc_def Let_def wrapper_statics)

lemma memcpy_loops_funpow:
  "memcpy_loops i body st = (body ^^ nat (MEMCPY_LOOPS - i)) st"
proof (induction i body st rule: memcpy_loops.induct)
  case (1 i body st)
  show ?case
  proof (cases "i < MEMCPY_LOOPS")
    case True
    have count: "nat (MEMCPY_LOOPS - i) = Suc (nat (MEMCPY_LOOPS - (i + 1)))"
      using True by simp
    have "memcpy_loops i body st = memcpy_loops (i + 1) body (body st)"
      using True by (subst memcpy_loops.simps) simp
    also have "\<dots> = (body ^^ nat (MEMCPY_LOOPS - (i + 1))) (body st)"
      using "1.IH" [OF True] .
    also have "\<dots> = (body ^^ nat (MEMCPY_LOOPS - i)) st"
      unfolding count by (simp add: funpow_swap1)
    finally show ?thesis .
  next
    case False
    then show ?thesis by (subst memcpy_loops.simps) simp
  qed
qed

lemma funpow_statics:
  fixes body :: "mstate \<Rightarrow> mstate"
  assumes "\<And>st. s_method_name (body st) = s_method_name st"
    and "\<And>st. whence (body st) = whence st"
  shows "s_method_name ((body ^^ k) st) = s_method_name st \<and> whence ((body ^^ k) st) = whence st"
  by (induction k) (simp_all add: assms)

lemma method_statics:
  "s_method_name (stress_memcpy_libc verify str1 str2 str3 st) = ''libc''"
  "whence (stress_memcpy_libc verify str1 str2 str3 st) = whence st"
  "s_method_name (stress_memcpy_builtin have_builtin b verify str1 str2 str3 st) =
     (if have_builtin then ''builtin'' else ''builtin (libc)'')"
  "whence (stress_memcpy_builtin have_builtin b verify str1 str2 str3 st) = whence st"
  "s_method_name (STRESS_MEMCPY_NAIVE method cpy move verify str1 str2 str3 st) = method"
  "whence (STRESS_MEMCPY_NAIVE method cpy move verify str1 str2 str3 st) = whence st"
  by (simp_all add: stress_memcpy_libc_def stress_memcpy_builtin_def STRESS_MEMCPY_NAIVE_def
      memcpy_loops_funpow funpow_statics pattern_statics)

lemma all_dispatch:
  "whence st = 0 \<Longrightarrow> stress_memcpy_all hb b v s1 s2 s3 st = stress_memcpy_libc v s1 s2 s3 (st\<lparr>whence := 1\<rparr>)"
  "whence st = 1 \<Longrightarrow> stress_memcpy_all hb b v s1 s2 s3 st = stress_memcpy_builtin hb b v s1 s2 s3 (st\<lparr>whence := 2\<rparr>)"
  "whence st = 2 \<Longrightarrow> stress_memcpy_all hb b v s1 s2 s3 st = stress_memcpy_naive v s1 s2 s3 (st\<lparr>whence := 3\<rparr>)"
  "whence st = 3 \<Longrightarrow> stress_memcpy_all hb b v s1 s2 s3 st = stress_memcpy_naive_o0 v s1 s2 s3 (st\<lparr>whence := 4\<rparr>)"
  "whence st = 4 \<Longrightarrow> stress_memcpy_all hb b v s1 s2 s3 st = (stress_memcpy_naive_o3 v s1 s2 s3 st)\<lparr>whence := 0\<rparr>"
  by (simp_all add: stress_memcpy_all_def)

lemma all_statics:
  "whence st = 0 \<Longrightarrow> s_method_name (stress_memcpy_all hb b v s1 s2 s3 st) = ''libc'' \<and>
      whence (stress_memcpy_all hb b v s1 s2 s3 st) = 1"
  "whence st = 1 \<Longrightarrow> s_method_name (stress_memcpy_all hb b v s1 s2 s3 st) =
      (if hb then ''builtin'' else ''builtin (libc)'') \<and>
      whence (stress_memcpy_all hb b v s1 s2 s3 st) = 2"
  "whence st = 2 \<Longrightarrow> s_method_name (stress_memcpy_all hb b v s1 s2 s3 st) = ''naive'' \<and>
      whence (stress_memcpy_all hb b v s1 s2 s3 st) = 3"
  "whence st = 3 \<Longrightarrow> s_method_name (stress_memcpy_all hb b v s1 s2 s3 st) = ''naive_o0'' \<and>
      whence (stress_memcpy_all hb b v s1 s2 s3 st) = 4"
  "whence st \<notin> {0, 1, 2, 3} \<Longrightarrow> s_method_name (stress_memcpy_all hb b v s1 s2 s3 st) = ''naive_o3'' \<and>
      whence (stress_memcpy_all hb b v s1 s2 s3 st) = 0"
  by (simp_all add: stress_memcpy_all_def method_statics stress_memcpy_naive_def
      stress_memcpy_naive_o0_def stress_memcpy_naive_o3_def)

text \<open>
  Claim C4. From the initial state of the cursor, five calls of the method \<open>all\<close> in a
  row run the methods libc, builtin, naive, naive_o0 and naive_o3 in this order, and
  the sixth call runs libc again. The method name each call leaves behind says so, and
  so does the state: each call is the call of that method, with the cursor moved on.
  Whatever the state, a call of \<open>all\<close> never runs naive_o1 or naive_o2.
\<close>

theorem all_round_robin:
  "(let call = stress_memcpy_all have_builtin b verify str1 str2 str3;
        st1 = call (initial_state name m); st2 = call st1; st3 = call st2;
        st4 = call st3; st5 = call st4; st6 = call st5
    in [s_method_name st1, s_method_name st2, s_method_name st3, s_method_name st4,
        s_method_name st5, s_method_name st6] =
       [''libc'', if have_builtin then ''builtin'' else ''builtin (libc)'', ''naive'',
        ''naive_o0'', ''naive_o3'', ''libc''] \<and>
       st1 = stress_memcpy_libc verify str1 str2 str3 ((initial_state name m)\<lparr>whence := 1\<rparr>) \<and>
       st2 = stress_memcpy_builtin have_builtin b verify str1 str2 str3 (st1\<lparr>whence := 2\<rparr>) \<and>
       st3 = stress_memcpy_naive verify str1 str2 str3 (st2\<lparr>whence := 3\<rparr>) \<and>
       st4 = stress_memcpy_naive_o0 verify str1 str2 str3 (st3\<lparr>whence := 4\<rparr>) \<and>
       st5 = (stress_memcpy_naive_o3 verify str1 str2 str3 st4)\<lparr>whence := 0\<rparr> \<and>
       st6 = stress_memcpy_libc verify str1 str2 str3 (st5\<lparr>whence := 1\<rparr>)) \<and>
   s_method_name (stress_memcpy_all have_builtin b verify str1 str2 str3 st)
     \<notin> {''naive_o1'', ''naive_o2''}"
proof -
  define call where "call = stress_memcpy_all have_builtin b verify str1 str2 str3"
  define st0 where "st0 = initial_state name m"
  define st1 where "st1 = call st0"
  define st2 where "st2 = call st1"
  define st3 where "st3 = call st2"
  define st4 where "st4 = call st3"
  define st5 where "st5 = call st4"
  define st6 where "st6 = call st5"
  have w0: "whence st0 = 0"
    by (simp add: st0_def initial_state_def)
  have s1: "s_method_name st1 = ''libc'' \<and> whence st1 = 1"
    unfolding st1_def call_def using w0 by (rule all_statics(1))
  then have s2: "s_method_name st2 = (if have_builtin then ''builtin'' else ''builtin (libc)'')
      \<and> whence st2 = 2"
    unfolding st2_def call_def by (intro all_statics(2)) simp
  then have s3: "s_method_name st3 = ''naive'' \<and> whence st3 = 3"
    unfolding st3_def call_def by (intro all_statics(3)) simp
  then have s4: "s_method_name st4 = ''naive_o0'' \<and> whence st4 = 4"
    unfolding st4_def call_def by (intro all_statics(4)) simp
  then have s5: "s_method_name st5 = ''naive_o3'' \<and> whence st5 = 0"
    unfolding st5_def call_def by (intro all_statics(5)) simp
  then have s6: "s_method_name st6 = ''libc'' \<and> whence st6 = 1"
    unfolding st6_def call_def by (intro all_statics(1)) simp
  have d1: "st1 = stress_memcpy_libc verify str1 str2 str3 (st0\<lparr>whence := 1\<rparr>)"
    unfolding st1_def call_def using w0 by (rule all_dispatch(1))
  have d2: "st2 = stress_memcpy_builtin have_builtin b verify str1 str2 str3 (st1\<lparr>whence := 2\<rparr>)"
    unfolding st2_def call_def using s1 by (intro all_dispatch(2)) simp
  have d3: "st3 = stress_memcpy_naive verify str1 str2 str3 (st2\<lparr>whence := 3\<rparr>)"
    unfolding st3_def call_def using s2 by (intro all_dispatch(3)) simp
  have d4: "st4 = stress_memcpy_naive_o0 verify str1 str2 str3 (st3\<lparr>whence := 4\<rparr>)"
    unfolding st4_def call_def using s3 by (intro all_dispatch(4)) simp
  have d5: "st5 = (stress_memcpy_naive_o3 verify str1 str2 str3 st4)\<lparr>whence := 0\<rparr>"
    unfolding st5_def call_def using s4 by (intro all_dispatch(5)) simp
  have d6: "st6 = stress_memcpy_libc verify str1 str2 str3 (st5\<lparr>whence := 1\<rparr>)"
    unfolding st6_def call_def using s5 by (intro all_dispatch(1)) simp
  have never: "s_method_name (stress_memcpy_all have_builtin b verify str1 str2 str3 st)
     \<notin> {''naive_o1'', ''naive_o2''}"
    by (simp add: stress_memcpy_all_def method_statics stress_memcpy_naive_def
      stress_memcpy_naive_o0_def stress_memcpy_naive_o3_def)
  show ?thesis
    using s1 s2 s3 s4 s5 s6 d1 d2 d3 d4 d5 d6 never
    unfolding st6_def st5_def st4_def st3_def st2_def st1_def st0_def call_def Let_def
    by simp
qed

section \<open>Properties of the migrate operation\<close>

text \<open>Without the change-cpu flag, or when nothing is cached and the kernel's mask
  cannot be read, the operation returns its input and applies no mask.\<close>

lemma change_cpu_no_migration:
  "\<not> opt_flags_change_cpu env \<Longrightarrow> stress_change_cpu env cached old_cpu = (old_cpu, None)"
  "opt_flags_change_cpu env \<Longrightarrow> CPU_COUNT cached = 0 \<Longrightarrow> sched_getaffinity env = None \<Longrightarrow>
     stress_change_cpu env cached old_cpu = (old_cpu, None)"
  by (simp_all add: stress_change_cpu_def)

text \<open>
  Claim C5. With change-cpu enabled and a working mask obtained (the cached mask, or the
  mask the kernel reports when nothing is cached): for an input that is not negative,
  the bit of the input is cleared exactly when the working mask holds more than one
  CPU; for a negative input the mask is left as it is. So the mask handed to the kernel
  is never empty when the mask the operation started from was not.
\<close>

theorem change_cpu_working_mask:
  assumes "opt_flags_change_cpu env"
    and "(if CPU_COUNT cached = 0 then sched_getaffinity env else Some cached) = Some mask0"
  shows "snd (stress_change_cpu env cached old_cpu) =
           Some (if 0 \<le> old_cpu \<and> 1 < CPU_COUNT mask0 then CPU_CLR old_cpu mask0 else mask0) \<and>
         (mask0 \<noteq> CPU_ZERO \<longrightarrow> snd (stress_change_cpu env cached old_cpu) \<noteq> Some CPU_ZERO)"
proof -
  have applied: "snd (stress_change_cpu env cached old_cpu) =
      Some (if 0 \<le> old_cpu \<and> 1 < CPU_COUNT mask0 then CPU_CLR old_cpu mask0 else mask0)"
    using assms by (auto simp: stress_change_cpu_def Let_def)
  have "CPU_CLR old_cpu mask0 \<noteq> CPU_ZERO" if "1 < CPU_COUNT mask0"
  proof -
    have "0 < fcard (CPU_CLR old_cpu mask0)"
      using that by (simp add: CPU_CLR_def CPU_COUNT_def fcard_fminus_fsingleton_if)
    then show ?thesis
      by (auto simp: CPU_ZERO_def fcard_fempty)
  qed
  with applied show ?thesis by auto
qed

theorem change_cpu_working_mask_witness:
  "snd (stress_change_cpu sample_env {|0, 2, 3|} 2) = Some {|0, 3|} \<and>
   snd (stress_change_cpu sample_env {|0, 2, 3|} (- 1)) = Some {|0, 2, 3|} \<and>
   snd (stress_change_cpu sample_env {|0|} 0) = Some {|0|} \<and>
   snd (stress_change_cpu sample_env {||} 0) = Some {|1, 2, 3|}"
proof -
  have flag: "opt_flags_change_cpu sample_env"
    by (simp add: sample_env_def)
  have m1: "(if CPU_COUNT {|0, 2, 3|} = 0 then sched_getaffinity sample_env else Some {|0, 2, 3|})
      = Some {|0, 2, 3|}"
    by (simp add: CPU_COUNT_def fcard_finsert_if fcard_fempty)
  have m2: "(if CPU_COUNT {|0|} = 0 then sched_getaffinity sample_env else Some {|0::int|})
      = Some {|0|}"
    by (simp add: CPU_COUNT_def fcard_finsert_if fcard_fempty)
  have m3: "(if CPU_COUNT {||} = 0 then sched_getaffinity sample_env else Some {||})
      = Some {|0, 1, 2, 3|}"
    by (simp add: CPU_COUNT_def fcard_fempty sample_env_def)
  show ?thesis
    using change_cpu_working_mask [OF flag m1, of 2] change_cpu_working_mask [OF flag m1, of "- 1"]
      change_cpu_working_mask [OF flag m2, of 0] change_cpu_working_mask [OF flag m3, of 0]
    by (auto simp: CPU_COUNT_def CPU_CLR_def CPU_ZERO_def fcard_finsert_if fcard_fempty)
qed

text \<open>
  Claim C8. When the migrate operation hands its mask to the kernel: if the kernel
  refuses it the operation returns \<open>from_cpu\<close>, which is the input, or the CPU queried
  before the call when the input was negative; if the kernel accepts it the operation
  returns the CPU queried after the move.
\<close>

theorem change_cpu_result:
  assumes "opt_flags_change_cpu env"
    and "snd (stress_change_cpu env cached old_cpu) = Some cmask"
  shows "fst (stress_change_cpu env cached old_cpu) =
     (if sched_setaffinity env cmask then sint (stress_get_cpu env (Some cmask))
      else if old_cpu < 0 then sint (stress_get_cpu env None) else old_cpu)"
  using assms by (auto simp: stress_change_cpu_def Let_def split: option.splits if_splits)

theorem change_cpu_result_witness:
  "fst (stress_change_cpu sample_env {|0, 2, 3|} 2) = 0 \<and>
   fst (stress_change_cpu refusing_env {|0, 2, 3|} 3) = 3 \<and>
   fst (stress_change_cpu refusing_env {|0, 2, 3|} (- 1)) = 2"
proof -
  have flag: "opt_flags_change_cpu sample_env" "opt_flags_change_cpu refusing_env"
    by (simp_all add: sample_env_def refusing_env_def)
  have a1: "snd (stress_change_cpu sample_env {|0, 2, 3|} 2) = Some {|0, 3|}"
    by (simp add: stress_change_cpu_def sample_env_def CPU_COUNT_def CPU_CLR_def
        fcard_finsert_if fcard_fempty Let_def) auto
  have a2: "snd (stress_change_cpu refusing_env {|0, 2, 3|} 3) = Some {|0, 2|}"
    by (simp add: stress_change_cpu_def sample_env_def refusing_env_def CPU_COUNT_def CPU_CLR_def
        fcard_finsert_if fcard_fempty Let_def) auto
  have a3: "snd (stress_change_cpu refusing_env {|0, 2, 3|} (- 1)) = Some {|0, 2, 3|}"
    by (simp add: stress_change_cpu_def sample_env_def refusing_env_def CPU_COUNT_def CPU_CLR_def
        fcard_finsert_if fcard_fempty Let_def)
  show ?thesis
    using change_cpu_result [OF flag(1) a1] change_cpu_result [OF flag(2) a2]
      change_cpu_result [OF flag(2) a3]
    by (simp add: sample_env_def refusing_env_def sample_get_cpu_def)
qed

section \<open>The inner pattern\<close>

lemma steps_1_2:
  "copied (buf + 2048) (buf + 4096) 1024 (copied (buf + 4096) (buf + 2048) 2048 m)
     = copied (buf + 4096) (buf + 2048) 2048 m"
  by (auto simp: fun_eq_iff copied_def)

lemma steps_3_4:
  "copied buf (buf + 2048) 2048 (copied (buf + 4096) (buf + 4160) 1984 m1)
   = (\<lambda>a. if buf \<le> a \<and> a < buf + 2048 then m1 (a + 2048)
          else copied (buf + 4096) (buf + 4160) 1984 m1 a)"
  by (auto simp: fun_eq_iff copied_def add.commute)

lemma steps_5_6:
  "copied (buf + 4096) buf 2048 (copied (buf + 4160) (buf + 4096) 1984 x)
   = (\<lambda>a. if buf + 4096 \<le> a \<and> a < buf + 6144 then x (a - 4096) else x a)"
  by (auto simp: fun_eq_iff copied_def add.commute)

lemma steps_3_6:
  "(\<lambda>a. if buf + 4096 \<le> a \<and> a < buf + 6144
         then (\<lambda>a. if buf \<le> a \<and> a < buf + 2048 then m1 (a + 2048)
                else copied (buf + 4096) (buf + 4160) 1984 m1 a) (a - 4096)
         else (\<lambda>a. if buf \<le> a \<and> a < buf + 2048 then m1 (a + 2048)
                else copied (buf + 4096) (buf + 4160) 1984 m1 a) a)
   = both_from_str2 buf m1"
  by (auto simp: fun_eq_iff copied_def both_from_str2_def add.commute)

lemma steps_1_6:
  "both_from_str2 buf (copied (buf + 4096) (buf + 2048) 2048 m) = both_from_str2 buf m"
  by (auto simp: fun_eq_iff copied_def both_from_str2_def add.commute)

lemma steps_7_8:
  "copied (buf + 4096) (buf + 4097) 2047 (copied (buf + 4097) (buf + 4096) 2047 (both_from_str2 buf m))
   = pass_store buf m"
  by (auto simp: fun_eq_iff copied_def pass_store_def both_from_str2_def add.commute)

lemma eight_copies:
  "copied (buf + 4096) (buf + 4097) 2047
     (copied (buf + 4097) (buf + 4096) 2047
       (copied (buf + 4096) buf 2048
         (copied (buf + 4160) (buf + 4096) 1984
           (copied buf (buf + 2048) 2048
             (copied (buf + 4096) (buf + 4160) 1984
               (copied (buf + 2048) (buf + 4096) 1024
                 (copied (buf + 4096) (buf + 2048) 2048 m))))))) = pass_store buf m"
  by (simp only: steps_1_2 steps_3_4 steps_5_6 steps_3_6 steps_1_6 steps_7_8)

lemma layout:
  "str1_of buf = buf" "str2_of buf = buf + 2048" "str3_of buf = buf + 4096"
  by (simp_all add: str1_of_def str2_of_def str3_of_def MEMCPY_MEMSIZE_def)

lemma pattern_mem:
  "mem (pattern verify cpy move str1 str2 str3 st) =
     snd (move str3 (str3 + 1) (MEMCPY_MEMSIZE - 1)
       (snd (move (str3 + 1) str3 (MEMCPY_MEMSIZE - 1)
         (snd (cpy str3 str1 MEMCPY_MEMSIZE
           (snd (move (str3 + 64) str3 (MEMCPY_MEMSIZE - 64)
             (snd (cpy str1 str2 MEMCPY_MEMSIZE
               (snd (move str3 (str3 + 64) (MEMCPY_MEMSIZE - 64)
                 (snd (cpy str2 str3 (MEMCPY_MEMSIZE div 2)
                   (snd (cpy str3 str2 MEMCPY_MEMSIZE (mem st))))))))))))))))"
  by (simp add: pattern_def Let_def wrapper_mem)

lemma pattern_pass_store:
  assumes move: "\<And>dest src n m. move dest src n m = (dest, copied dest src n m)"
    and cpy: "\<And>dest src n m. dest \<le> src \<or> src + n \<le> dest \<Longrightarrow> cpy dest src n m = (dest, copied dest src n m)"
  shows "mem (pattern verify cpy move (str1_of buf) (str2_of buf) (str3_of buf) st)
     = pass_store buf (mem st)"
proof -
  have c1: "cpy (buf + 4096) (buf + 2048) 2048 m = (buf + 4096, copied (buf + 4096) (buf + 2048) 2048 m)" for m
    by (rule cpy) simp
  have c2: "cpy (buf + 2048) (buf + 4096) 1024 m = (buf + 2048, copied (buf + 2048) (buf + 4096) 1024 m)" for m
    by (rule cpy) simp
  have c4: "cpy buf (buf + 2048) 2048 m = (buf, copied buf (buf + 2048) 2048 m)" for m
    by (rule cpy) simp
  have c6: "cpy (buf + 4096) buf 2048 m = (buf + 4096, copied (buf + 4096) buf 2048 m)" for m
    by (rule cpy) simp
  have arith: "buf + 4096 + 1 = buf + 4097" "buf + 4096 + 64 = buf + 4160"
    "(2048::nat) - 1 = 2047" "(2048::nat) - 64 = 1984" "(2048::nat) div 2 = 1024"
    by simp_all
  show ?thesis
    unfolding pattern_mem layout MEMCPY_MEMSIZE_def
    by (simp only: arith move c1 c2 c4 c6 snd_conv eight_copies)
qed

lemma pass_store_idem: "pass_store buf (pass_store buf m) = pass_store buf m"
  by (auto simp: fun_eq_iff pass_store_def)

lemma funpow_store:
  fixes body :: "mstate \<Rightarrow> mstate"
  assumes "\<And>st. mem (body st) = F (mem st)" and "\<And>m. F (F m) = F m"
  shows "mem ((body ^^ Suc k) st) = F (mem st)"
  by (induction k) (simp_all add: assms)

lemma loops_store:
  fixes body :: "mstate \<Rightarrow> mstate"
  assumes "\<And>st. mem (body st) = F (mem st)" and "\<And>m. F (F m) = F m"
  shows "mem (memcpy_loops 0 body st) = F (mem st)"
proof -
  have "nat (MEMCPY_LOOPS - 0) = Suc 1023"
    by (simp add: MEMCPY_LOOPS_def)
  then show ?thesis
    using funpow_store [of body F 1023 st, OF assms] by (simp add: memcpy_loops_funpow)
qed

lemma method_store:
  "mem (stress_memcpy_libc verify (str1_of buf) (str2_of buf) (str3_of buf) st) = pass_store buf (mem st)"
  "mem (stress_memcpy_builtin True b verify (str1_of buf) (str2_of buf) (str3_of buf) st) = pass_store buf (mem st)"
  "mem (stress_memcpy_naive verify (str1_of buf) (str2_of buf) (str3_of buf) st) = pass_store buf (mem st)"
  "mem (stress_memcpy_naive_o0 verify (str1_of buf) (str2_of buf) (str3_of buf) st) = pass_store buf (mem st)"
  "mem (stress_memcpy_naive_o1 verify (str1_of buf) (str2_of buf) (str3_of buf) st) = pass_store buf (mem st)"
  "mem (stress_memcpy_naive_o2 verify (str1_of buf) (str2_of buf) (str3_of buf) st) = pass_store buf (mem st)"
  "mem (stress_memcpy_naive_o3 verify (str1_of buf) (str2_of buf) (str3_of buf) st) = pass_store buf (mem st)"
proof -
  have libc: "mem (pattern verify memcpy memmove (str1_of buf) (str2_of buf) (str3_of buf) s)
      = pass_store buf (mem s)" for s
    by (rule pattern_pass_store) (simp_all add: memcpy_def memmove_def)
  have builtin: "mem (pattern verify stress_builtin_memcpy_wrapper stress_builtin_memmove_wrapper
      (str1_of buf) (str2_of buf) (str3_of buf) s) = pass_store buf (mem s)" for s
    by (rule pattern_pass_store)
      (simp_all add: stress_builtin_memcpy_wrapper_def stress_builtin_memmove_wrapper_def
        builtin_memcpy_def builtin_memmove_def)
  have naive: "mem (pattern verify TEST_NAIVE_MEMCPY TEST_NAIVE_MEMMOVE
      (str1_of buf) (str2_of buf) (str3_of buf) s) = pass_store buf (mem s)" for s
    by (rule pattern_pass_store) (simp_all add: TEST_NAIVE_MEMMOVE_copied TEST_NAIVE_MEMCPY_copied)
  show "mem (stress_memcpy_libc verify (str1_of buf) (str2_of buf) (str3_of buf) st) = pass_store buf (mem st)"
    unfolding stress_memcpy_libc_def
    by (subst loops_store [where F = "pass_store buf"]) (simp_all add: libc pass_store_idem)
  show "mem (stress_memcpy_builtin True b verify (str1_of buf) (str2_of buf) (str3_of buf) st) = pass_store buf (mem st)"
    unfolding stress_memcpy_builtin_def
    by (simp, subst loops_store [where F = "pass_store buf"]) (simp_all add: builtin pass_store_idem)
  show "mem (stress_memcpy_naive verify (str1_of buf) (str2_of buf) (str3_of buf) st) = pass_store buf (mem st)"
    unfolding stress_memcpy_naive_def STRESS_MEMCPY_NAIVE_def naive_instances
    by (subst loops_store [where F = "pass_store buf"]) (simp_all add: naive pass_store_idem)
  show "mem (stress_memcpy_naive_o0 verify (str1_of buf) (str2_of buf) (str3_of buf) st) = pass_store buf (mem st)"
    unfolding stress_memcpy_naive_o0_def STRESS_MEMCPY_NAIVE_def naive_instances
    by (subst loops_store [where F = "pass_store buf"]) (simp_all add: naive pass_store_idem)
  show "mem (stress_memcpy_naive_o1 verify (str1_of buf) (str2_of buf) (str3_of buf) st) = pass_store buf (mem st)"
    unfolding stress_memcpy_naive_o1_def STRESS_MEMCPY_NAIVE_def naive_instances
    by (subst loops_store [where F = "pass_store buf"]) (simp_all add: naive pass_store_idem)
  show "mem (stress_memcpy_naive_o2 verify (str1_of buf) (str2_of buf) (str3_of buf) st) = pass_store buf (mem st)"
    unfolding stress_memcpy_naive_o2_def STRESS_MEMCPY_NAIVE_def naive_instances
    by (subst loops_store [where F = "pass_store buf"]) (simp_all add: naive pass_store_idem)
  show "mem (stress_memcpy_naive_o3 verify (str1_of buf) (str2_of buf) (str3_of buf) st) = pass_store buf (mem st)"
    unfolding stress_memcpy_naive_o3_def STRESS_MEMCPY_NAIVE_def naive_instances
    by (subst loops_store [where F = "pass_store buf"]) (simp_all add: naive pass_store_idem)
qed

lemma all_store:
  "mem (stress_memcpy_all True b verify (str1_of buf) (str2_of buf) (str3_of buf) st) = pass_store buf (mem st)"
  by (simp add: stress_memcpy_all_def method_store)

text \<open>
  Claim C1, as the code has it. After one call of a method (1024 passes of the eight
  steps over buffers of 2048 bytes), whatever the three buffers held before: \<open>str3\<close>
  equals \<open>str1\<close> on every index below \<open>N - 1\<close>; the last byte of \<open>str3\<close> is the byte
  of \<open>str1\<close> at index \<open>N - 2\<close>, left there by the last two moves (one byte up, then one
  byte down); and \<open>str1\<close> equals \<open>str2\<close>, which is unchanged, on every index below
  \<open>N\<close>. This holds for the libc method, the builtin method with compiler intrinsics,
  the five naive methods and the method \<open>all\<close> over them, with and without checks.
\<close>

theorem pattern_final_buffers:
  assumes "method \<in> {stress_memcpy_libc, stress_memcpy_builtin True b, stress_memcpy_naive,
      stress_memcpy_naive_o0, stress_memcpy_naive_o1, stress_memcpy_naive_o2,
      stress_memcpy_naive_o3, stress_memcpy_all True b}"
  shows "(let final = mem (method verify (str1_of buf) (str2_of buf) (str3_of buf) st) in
      (\<forall>i < MEMCPY_MEMSIZE - 1. final (str3_of buf + i) = final (str1_of buf + i)) \<and>
      final (str3_of buf + (MEMCPY_MEMSIZE - 1)) = final (str1_of buf + (MEMCPY_MEMSIZE - 2)) \<and>
      (\<forall>i < MEMCPY_MEMSIZE. final (str1_of buf + i) = final (str2_of buf + i) \<and>
                              final (str2_of buf + i) = mem st (str2_of buf + i)))"
proof -
  have "mem (method verify (str1_of buf) (str2_of buf) (str3_of buf) st) = pass_store buf (mem st)"
    using assms by (auto simp: method_store all_store)
  then show ?thesis
    unfolding Let_def layout MEMCPY_MEMSIZE_def
    by (simp add: pass_store_def ac_simps)
qed

theorem pattern_final_buffers_witness:
  "mem (stress_memcpy_naive True (str1_of 0) (str2_of 0) (str3_of 0) (initial_state ''memcpy'' byte_of_addr))
     (str3_of 0 + 5) =
   mem (stress_memcpy_naive True (str1_of 0) (str2_of 0) (str3_of 0) (initial_state ''memcpy'' byte_of_addr))
     (str1_of 0 + 5) \<and>
   mem (stress_memcpy_naive True (str1_of 0) (str2_of 0) (str3_of 0) (initial_state ''memcpy'' byte_of_addr))
     (str3_of 0 + (MEMCPY_MEMSIZE - 1)) =
   mem (stress_memcpy_naive True (str1_of 0) (str2_of 0) (str3_of 0) (initial_state ''memcpy'' byte_of_addr))
     (str1_of 0 + (MEMCPY_MEMSIZE - 2)) \<and>
   mem (stress_memcpy_naive True (str1_of 0) (str2_of 0) (str3_of 0) (initial_state ''memcpy'' byte_of_addr))
     (str1_of 0 + 7) =
   mem (initial_state ''memcpy'' byte_of_addr) (str2_of 0 + 7)"
proof -
  have naive: "stress_memcpy_naive \<in> {stress_memcpy_libc, stress_memcpy_builtin True 0,
      stress_memcpy_naive, stress_memcpy_naive_o0, stress_memcpy_naive_o1, stress_memcpy_naive_o2,
      stress_memcpy_naive_o3, stress_memcpy_all True 0}"
    by simp
  have "(5::nat) < MEMCPY_MEMSIZE - 1" and "(7::nat) < MEMCPY_MEMSIZE"
    by (simp_all add: MEMCPY_MEMSIZE_def)
  then show ?thesis
    using pattern_final_buffers [OF naive, of True 0 "initial_state ''memcpy'' byte_of_addr"]
    unfolding Let_def by metis
qed

text \<open>
  Claim C1 as stated fails at the last index: with the last byte of \<open>str2\<close> set to 1
  and every other byte 0, the naive method leaves 0 in the last byte of \<open>str3\<close> and 1
  in the last byte of \<open>str1\<close>.
\<close>

theorem final_str3_differs:
  "mem (stress_memcpy_naive False (str1_of 0) (str2_of 0) (str3_of 0) (initial_state ''memcpy'' str2_last_byte))
      (str3_of 0 + 2047) \<noteq>
   mem (stress_memcpy_naive False (str1_of 0) (str2_of 0) (str3_of 0) (initial_state ''memcpy'' str2_last_byte))
      (str1_of 0 + 2047)"
  unfolding method_store
  by (simp add: layout pass_store_def initial_state_def str2_last_byte_def)

section \<open>The builtin method without compiler intrinsics\<close>

lemma pattern_builtin_libc_mem:
  "mem (pattern_builtin_libc verify b str1 str2 str3 st) =
     copied str3 (str3 + 1) (MEMCPY_MEMSIZE - 1)
       (copied (str3 + 1) str3 (MEMCPY_MEMSIZE - 1)
         (copied b str1 MEMCPY_MEMSIZE
           (copied (str3 + 64) str3 (MEMCPY_MEMSIZE - 64)
             (copied str1 b MEMCPY_MEMSIZE
               (copied str3 (str3 + 64) (MEMCPY_MEMSIZE - 64)
                 (copied str2 str3 (MEMCPY_MEMSIZE div 2)
                   (copied str3 str2 MEMCPY_MEMSIZE (mem st))))))))"
  by (simp add: pattern_builtin_libc_def Let_def wrapper_mem memcpy_def memmove_def)

lemma steps_3_5:
  "copied (buf + 4160) (buf + 4096) 1984
     (\<lambda>a. if buf \<le> a \<and> a < buf + 2048 then m1 (a + 2048)
          else copied (buf + 4096) (buf + 4160) 1984 m1 a)
   = (\<lambda>a. if buf \<le> a \<and> a < buf + 2048 then m1 (a + 2048)
          else if buf + 4096 \<le> a \<and> a < buf + 4160 then m1 (a + 64)
          else m1 a)"
  by (auto simp: fun_eq_iff copied_def add.commute)

lemma steps_1_5:
  "(\<lambda>a. if buf \<le> a \<and> a < buf + 2048 then copied (buf + 4096) (buf + 2048) 2048 m (a + 2048)
          else if buf + 4096 \<le> a \<and> a < buf + 4160 then copied (buf + 4096) (buf + 2048) 2048 m (a + 64)
          else copied (buf + 4096) (buf + 2048) 2048 m a)
   = after_step_5 buf m"
  by (auto simp: fun_eq_iff copied_def after_step_5_def add.commute)

lemma step_6_b_str2:
  "copied (buf + 2048) buf 2048 (after_step_5 buf m) = after_step_5 buf m"
  by (auto simp: fun_eq_iff copied_def after_step_5_def add.commute)

lemma steps_7_8_b_str2:
  "copied (buf + 4096) (buf + 4097) 2047 (copied (buf + 4097) (buf + 4096) 2047 (after_step_5 buf m))
   = pass_store_b_str2 buf m"
  by (auto simp: fun_eq_iff copied_def after_step_5_def pass_store_b_str2_def add.commute)

lemma eight_copies_b_str2:
  "copied (buf + 4096) (buf + 4097) 2047
     (copied (buf + 4097) (buf + 4096) 2047
       (copied (buf + 2048) buf 2048
         (copied (buf + 4160) (buf + 4096) 1984
           (copied buf (buf + 2048) 2048
             (copied (buf + 4096) (buf + 4160) 1984
               (copied (buf + 2048) (buf + 4096) 1024
                 (copied (buf + 4096) (buf + 2048) 2048 m))))))) = pass_store_b_str2 buf m"
  by (simp only: steps_1_2 steps_3_4 steps_3_5 steps_1_5 step_6_b_str2 steps_7_8_b_str2)

lemma steps_3_4_b_str3:
  "copied buf (buf + 4096) 2048 (copied (buf + 4096) (buf + 4160) 1984 m1)
   = (\<lambda>a. if buf \<le> a \<and> a < buf + 1984 then m1 (a + 4160)
          else if buf + 1984 \<le> a \<and> a < buf + 2048 then m1 (a + 4096)
          else copied (buf + 4096) (buf + 4160) 1984 m1 a)"
  by (auto simp: fun_eq_iff copied_def add.commute)

lemma steps_3_6_b_str3:
  "(\<lambda>a. if buf + 4096 \<le> a \<and> a < buf + 6144
         then (\<lambda>a. if buf \<le> a \<and> a < buf + 1984 then m1 (a + 4160)
                else if buf + 1984 \<le> a \<and> a < buf + 2048 then m1 (a + 4096)
                else copied (buf + 4096) (buf + 4160) 1984 m1 a) (a - 4096)
         else (\<lambda>a. if buf \<le> a \<and> a < buf + 1984 then m1 (a + 4160)
                else if buf + 1984 \<le> a \<and> a < buf + 2048 then m1 (a + 4096)
                else copied (buf + 4096) (buf + 4160) 1984 m1 a) a)
   = (\<lambda>a. if buf \<le> a \<and> a < buf + 1984 then m1 (a + 4160)
          else if buf + 1984 \<le> a \<and> a < buf + 2048 then m1 (a + 4096)
          else if buf + 4096 \<le> a \<and> a < buf + 6080 then m1 (a + 64)
          else m1 a)"
  by (auto simp: fun_eq_iff copied_def add.commute)

lemma steps_1_6_b_str3:
  "(\<lambda>a. if buf \<le> a \<and> a < buf + 1984 then copied (buf + 4096) (buf + 2048) 2048 m (a + 4160)
          else if buf + 1984 \<le> a \<and> a < buf + 2048 then copied (buf + 4096) (buf + 2048) 2048 m (a + 4096)
          else if buf + 4096 \<le> a \<and> a < buf + 6080 then copied (buf + 4096) (buf + 2048) 2048 m (a + 64)
          else copied (buf + 4096) (buf + 2048) 2048 m a)
   = after_step_6_b_str3 buf m"
  by (auto simp: fun_eq_iff copied_def after_step_6_b_str3_def add.commute)

lemma steps_7_8_b_str3:
  "copied (buf + 4096) (buf + 4097) 2047
     (copied (buf + 4097) (buf + 4096) 2047 (after_step_6_b_str3 buf m))
   = pass_store_b_str3 buf m"
  by (auto simp: fun_eq_iff copied_def after_step_6_b_str3_def pass_store_b_str3_def add.commute)

lemma eight_copies_b_str3:
  "copied (buf + 4096) (buf + 4097) 2047
     (copied (buf + 4097) (buf + 4096) 2047
       (copied (buf + 4096) buf 2048
         (copied (buf + 4160) (buf + 4096) 1984
           (copied buf (buf + 4096) 2048
             (copied (buf + 4096) (buf + 4160) 1984
               (copied (buf + 2048) (buf + 4096) 1024
                 (copied (buf + 4096) (buf + 2048) 2048 m))))))) = pass_store_b_str3 buf m"
  by (simp only: steps_1_2 steps_3_4_b_str3 steps_5_6 steps_3_6_b_str3 steps_1_6_b_str3
      steps_7_8_b_str3)

lemma pass_store_b_str2_idem:
  "pass_store_b_str2 buf (pass_store_b_str2 buf m) = pass_store_b_str2 buf m"
proof -
  have outside: "pass_store_b_str2 buf m x = m x"
    if "x < buf \<or> (buf + 2048 \<le> x \<and> x < buf + 4096) \<or> buf + 6144 \<le> x" for x
    using that by (auto simp: pass_store_b_str2_def)
  have depends: "pass_store_b_str2 buf m' = pass_store_b_str2 buf m"
    if "\<And>x. x < buf \<or> (buf + 2048 \<le> x \<and> x < buf + 4096) \<or> buf + 6144 \<le> x \<Longrightarrow> m' x = m x"
    for m'
    by (auto simp: fun_eq_iff pass_store_b_str2_def intro!: that)
  show ?thesis
    by (rule depends) (rule outside)
qed

lemma pass_store_b_str3_idem:
  "pass_store_b_str3 buf (pass_store_b_str3 buf m) = pass_store_b_str3 buf m"
proof -
  have outside: "pass_store_b_str3 buf m x = m x"
    if "x < buf \<or> (buf + 2048 \<le> x \<and> x < buf + 4096) \<or> buf + 6144 \<le> x" for x
    using that by (auto simp: pass_store_b_str3_def)
  have depends: "pass_store_b_str3 buf m' = pass_store_b_str3 buf m"
    if "\<And>x. x < buf \<or> (buf + 2048 \<le> x \<and> x < buf + 4096) \<or> buf + 6144 \<le> x \<Longrightarrow> m' x = m x"
    for m'
    by (auto simp: fun_eq_iff pass_store_b_str3_def intro!: that)
  show ?thesis
    by (rule depends) (rule outside)
qed

lemma builtin_libc_store:
  "mem (stress_memcpy_builtin False (str2_of buf) verify (str1_of buf) (str2_of buf) (str3_of buf) st)
     = pass_store_b_str2 buf (mem st)"
  "mem (stress_memcpy_builtin False (str3_of buf) verify (str1_of buf) (str2_of buf) (str3_of buf) st)
     = pass_store_b_str3 buf (mem st)"
proof -
  have arith: "buf + 4096 + 1 = buf + 4097" "buf + 4096 + 64 = buf + 4160"
    "(2048::nat) - 1 = 2047" "(2048::nat) - 64 = 1984" "(2048::nat) div 2 = 1024"
    by simp_all
  have b2: "mem (pattern_builtin_libc verify (str2_of buf) (str1_of buf) (str2_of buf) (str3_of buf) s)
      = pass_store_b_str2 buf (mem s)" for s
    unfolding pattern_builtin_libc_mem layout MEMCPY_MEMSIZE_def
    by (simp only: arith eight_copies_b_str2)
  have b3: "mem (pattern_builtin_libc verify (str3_of buf) (str1_of buf) (str2_of buf) (str3_of buf) s)
      = pass_store_b_str3 buf (mem s)" for s
    unfolding pattern_builtin_libc_mem layout MEMCPY_MEMSIZE_def
    by (simp only: arith eight_copies_b_str3)
  show "mem (stress_memcpy_builtin False (str2_of buf) verify (str1_of buf) (str2_of buf) (str3_of buf) st)
     = pass_store_b_str2 buf (mem st)"
    unfolding stress_memcpy_builtin_def
    by (simp, subst loops_store [where F = "pass_store_b_str2 buf"]) (simp_all add: b2 pass_store_b_str2_idem)
  show "mem (stress_memcpy_builtin False (str3_of buf) verify (str1_of buf) (str2_of buf) (str3_of buf) st)
     = pass_store_b_str3 buf (mem st)"
    unfolding stress_memcpy_builtin_def
    by (simp, subst loops_store [where F = "pass_store_b_str3 buf"]) (simp_all add: b3 pass_store_b_str3_idem)
qed

text \<open>
  Claim C9: without compiler intrinsics the builtin method reports the name
  "builtin (libc)" and is meant to run the pattern of the libc method. The code of that
  branch names \<open>b\<close> in its fourth and sixth step, which nothing declares. Whether \<open>b\<close>
  is read as \<open>str2\<close> or as \<open>str3\<close>, the method does not do what libc does: on the
  buffers at address 0 with only the byte of \<open>str2\<close> at index 64 set, libc leaves 0 in
  the first byte of \<open>str3\<close> and of \<open>str1\<close>, the branch leaves 1 in the first byte of
  \<open>str3\<close> (\<open>b\<close> for \<open>str2\<close>) or of \<open>str1\<close> (\<open>b\<close> for \<open>str3\<close>).
\<close>

theorem builtin_fallback_not_libc:
  "s_method_name (stress_memcpy_builtin False (str2_of 0) False (str1_of 0) (str2_of 0) (str3_of 0)
      (initial_state ''memcpy'' str2_byte_64)) = ''builtin (libc)'' \<and>
   mem (stress_memcpy_libc False (str1_of 0) (str2_of 0) (str3_of 0)
      (initial_state ''memcpy'' str2_byte_64)) (str3_of 0) = 0 \<and>
   mem (stress_memcpy_builtin False (str2_of 0) False (str1_of 0) (str2_of 0) (str3_of 0)
      (initial_state ''memcpy'' str2_byte_64)) (str3_of 0) = 1 \<and>
   mem (stress_memcpy_libc False (str1_of 0) (str2_of 0) (str3_of 0)
      (initial_state ''memcpy'' str2_byte_64)) (str1_of 0) = 0 \<and>
   mem (stress_memcpy_builtin False (str3_of 0) False (str1_of 0) (str2_of 0) (str3_of 0)
      (initial_state ''memcpy'' str2_byte_64)) (str1_of 0) = 1"
  unfolding method_store builtin_libc_store method_statics
  by (simp add: layout pass_store_def pass_store_b_str2_def pass_store_b_str3_def
      initial_state_def str2_byte_64_def)

section \<open>Properties of the bind operation\<close>

lemma set_cpus_fset: "fset (set_cpus i hi cset) = fset cset \<union> {i..hi}"
proof (induction i hi cset rule: set_cpus.induct)
  case (1 i hi cset)
  show ?case
  proof (cases "i \<le> hi")
    case True
    have "{i..hi} = insert i {i + 1..hi}"
      using True by auto
    with True "1.IH" show ?thesis
      by (subst set_cpus.simps) (simp add: CPU_SET_def)
  next
    case False
    then show ?thesis by (subst set_cpus.simps) simp
  qed
qed

lemma set_cpus_union: "set_cpus lo hi cset = cset |\<union>| fset_of_list [lo..hi]"
  by (rule fset_eqI) (simp add: set_cpus_fset fset_of_list.rep_eq)

lemma digit_not_space: "isdigit c \<Longrightarrow> \<not> isspace c \<and> c \<noteq> CHR ''-'' \<and> c \<noteq> CHR ''+'' \<and> c \<noteq> CHR '',''"
  by (auto simp: isdigit_def isspace_def)

lemma digit_value_range: "isdigit c \<Longrightarrow> 0 \<le> digit_value c \<and> digit_value c \<le> 9"
  by (auto simp: isdigit_def digit_value_def)

lemma scan_digits_append:
  "list_all isdigit ds \<Longrightarrow> rest = [] \<or> \<not> isdigit (hd rest) \<Longrightarrow>
   scan_digits acc (ds @ rest) = foldl (\<lambda>v c. v * 10 + digit_value c) acc ds"
proof (induction ds arbitrary: acc)
  case Nil
  then show ?case by (cases rest) auto
next
  case (Cons d ds)
  then show ?case by simp
qed

lemma foldl_digits_nonneg:
  "list_all isdigit ds \<Longrightarrow> 0 \<le> acc \<Longrightarrow> 0 \<le> foldl (\<lambda>v c. v * 10 + digit_value c) acc ds"
proof (induction ds arbitrary: acc)
  case Nil
  then show ?case by simp
next
  case (Cons d ds)
  have "0 \<le> acc * 10 + digit_value d"
    using Cons.prems digit_value_range [of d] by simp
  with Cons show ?case by simp
qed

lemma cpu_value_nonneg: "is_cpu s \<Longrightarrow> 0 \<le> cpu_value s"
  by (simp add: is_cpu_def cpu_value_def foldl_digits_nonneg)

lemma store_int_small: "0 \<le> v \<Longrightarrow> v < 2 ^ 31 \<Longrightarrow> store_int v = v"
  by (simp add: store_int_def signed_of_int signed_take_bit_int_eq_self)

lemma sscanf_d_cpu:
  assumes "is_cpu ds" and "rest = [] \<or> \<not> isdigit (hd rest)" and "cpu_value ds < 2 ^ 31"
  shows "sscanf_d (ds @ rest) = Some (cpu_value ds)"
proof -
  from assms(1) obtain d ds' where ds: "ds = d # ds'" and d: "isdigit d" and all: "list_all isdigit ds"
    by (cases ds) (auto simp: is_cpu_def)
  have ne: "ds \<noteq> []" and hd: "hd (ds @ rest) = d"
    by (simp_all add: ds)
  have drop: "dropWhile isspace (ds @ rest) = ds @ rest"
    using d digit_not_space [of d] by (simp add: ds)
  have scan: "scan_digits 0 (ds @ rest) = cpu_value ds"
    using all assms(2) by (simp add: scan_digits_append cpu_value_def)
  show ?thesis
    unfolding sscanf_d_def drop Let_def
    using d digit_not_space [of d] cpu_value_nonneg [OF assms(1)] assms(3)
    by (simp add: ne hd scan store_int_small)
qed


lemma strstr_digits:
  "list_all isdigit ds \<Longrightarrow> strstr ds ''-'' = None"
  "list_all isdigit ds \<Longrightarrow> strstr (ds @ CHR ''-'' # r) ''-'' = Some (CHR ''-'' # r)"
proof (induction ds)
  case Nil
  { case 1 show ?case by simp }
  { case 2 show ?case by simp }
next
  case (Cons d ds)
  { case 1 with Cons.IH(1) digit_not_space [of d] show ?case by simp }
  { case 2 with Cons.IH(2) digit_not_space [of d] show ?case by simp }
qed

lemma parse_token_cpu:
  assumes "is_cpu s" and "cpu_value s < max_cpus" and "max_cpus \<le> 2 ^ 31"
  shows "parse_token max_cpus s = Inr (cpu_value s, cpu_value s)"
proof -
  have all: "list_all isdigit s"
    using assms(1) by (simp add: is_cpu_def)
  have "sscanf_d (s @ []) = Some (cpu_value s)"
    using assms by (intro sscanf_d_cpu) auto
  then have lo: "stress_parse_cpu s = Inr (cpu_value s)"
    by (simp add: stress_parse_cpu_def)
  show ?thesis
    using cpu_value_nonneg [OF assms(1)] assms(2)
    by (simp add: parse_token_def lo strstr_digits(1) [OF all] stress_check_cpu_affinity_range_def)
qed

lemma parse_token_range:
  assumes "is_cpu lo" and "is_cpu hi" and "cpu_value lo \<le> cpu_value hi"
    and "cpu_value hi < max_cpus" and "max_cpus \<le> 2 ^ 31"
  shows "parse_token max_cpus (lo @ CHR ''-'' # hi) = Inr (cpu_value lo, cpu_value hi)"
proof -
  have all: "list_all isdigit lo" and hi_ne: "hi \<noteq> []"
    using assms(1,2) by (simp_all add: is_cpu_def)
  have "sscanf_d (lo @ CHR ''-'' # hi) = Some (cpu_value lo)"
    using assms by (intro sscanf_d_cpu) (auto simp: isdigit_def)
  then have lo: "stress_parse_cpu (lo @ CHR ''-'' # hi) = Inr (cpu_value lo)"
    by (simp add: stress_parse_cpu_def)
  have "sscanf_d (hi @ []) = Some (cpu_value hi)"
    using assms by (intro sscanf_d_cpu) auto
  then have hi: "stress_parse_cpu hi = Inr (cpu_value hi)"
    by (simp add: stress_parse_cpu_def)
  have str: "strstr (lo @ CHR ''-'' # hi) ''-'' = Some (CHR ''-'' # hi)"
    using strstr_digits(2) [OF all, of hi] by simp
  show ?thesis
    using cpu_value_nonneg [OF assms(1)] cpu_value_nonneg [OF assms(2)] assms(3,4) hi_ne
    by (simp add: parse_token_def lo hi str stress_check_cpu_affinity_range_def)
qed

lemma parse_token_item:
  assumes "item_valid max_cpus it" and "max_cpus \<le> 2 ^ 31"
  shows "\<exists>lo hi. parse_token max_cpus (item_text it) = Inr (lo, hi) \<and>
           fset_of_list [lo..hi] = item_cpus it"
proof (cases it)
  case (Cpu s)
  with assms show ?thesis by (simp add: parse_token_cpu)
next
  case (Range lo hi)
  with assms show ?thesis by (simp add: parse_token_range)
qed

lemma strtok_token:
  assumes "tok \<noteq> []" and "CHR '','' \<notin> set tok"
  shows "strtok tok '','' = Some (tok, [])"
    and "strtok (tok @ CHR '','' # rest) '','' = Some (tok, rest)"
proof -
  have d0: "dropWhile (\<lambda>c. c = CHR '','') tok = tok"
    and d1: "dropWhile (\<lambda>c. c = CHR '','') (tok @ CHR '','' # rest) = tok @ CHR '','' # rest"
    using assms by (cases tok; auto)+
  have t1: "takeWhile (\<lambda>c. c \<noteq> CHR '','') (tok @ CHR '','' # rest) = tok"
    and t2: "dropWhile (\<lambda>c. c \<noteq> CHR '','') (tok @ CHR '','' # rest) = CHR '','' # rest"
    and t3: "takeWhile (\<lambda>c. c \<noteq> CHR '','') tok = tok"
    and t4: "dropWhile (\<lambda>c. c \<noteq> CHR '','') tok = []"
    using assms(2) by (induction tok; auto)+
  show "strtok tok '','' = Some (tok, [])"
    using assms(1) by (simp add: strtok_def Let_def d0 t3 t4)
  show "strtok (tok @ CHR '','' # rest) '','' = Some (tok, rest)"
    using assms(1) by (simp add: strtok_def Let_def d1 t1 t2)
qed

lemma strtok_end: "strtok [] '','' = None"
  by (simp add: strtok_def)

lemma item_text_token:
  assumes "item_valid max_cpus it"
  shows "item_text it \<noteq> [] \<and> CHR '','' \<notin> set (item_text it)"
proof -
  have "CHR '','' \<notin> set s" if "list_all isdigit s" for s
    using that digit_not_space by (auto simp: list_all_iff)
  with assms show ?thesis
    by (cases it) (auto simp: is_cpu_def)
qed

lemma token_loop_items:
  assumes "list_all (item_valid max_cpus) items" and "max_cpus \<le> 2 ^ 31"
  shows "token_loop max_cpus (list_text items) cset = Inr (cset |\<union>| union_of_items items)"
  using assms(1)
proof (induction items arbitrary: cset rule: list_text.induct)
  case 1
  show ?case
    by (subst token_loop.simps) (simp add: strtok_end union_of_items_def)
next
  case (2 x)
  then have valid: "item_valid max_cpus x"
    by simp
  obtain lo hi where tok: "parse_token max_cpus (item_text x) = Inr (lo, hi)"
    and cpus: "fset_of_list [lo..hi] = item_cpus x"
    using parse_token_item [OF valid assms(2)] by blast
  have last: "token_loop max_cpus [] c = Inr c" for c
    by (subst token_loop.simps) (simp add: strtok_end)
  show ?case
    using item_text_token [OF valid]
    by (subst token_loop.simps)
      (simp add: strtok_token(1) tok last set_cpus_union cpus union_of_items_def)
next
  case (3 x y ys)
  then have valid: "item_valid max_cpus x" and rest: "list_all (item_valid max_cpus) (y # ys)"
    by simp_all
  obtain lo hi where tok: "parse_token max_cpus (item_text x) = Inr (lo, hi)"
    and cpus: "fset_of_list [lo..hi] = item_cpus x"
    using parse_token_item [OF valid assms(2)] by blast
  have shape: "list_text (x # y # ys) = item_text x @ CHR '','' # list_text (y # ys)"
    by simp
  show ?case
    unfolding shape
    using item_text_token [OF valid]
    by (subst token_loop.simps)
      (simp add: strtok_token(2) tok "3.IH" [OF rest] set_cpus_union cpus union_of_items_def
        funion_assoc)
qed

text \<open>
  Claim C2. For every list of items that conforms to the grammar, with every CPU index
  in \<open>[0, max_cpus)\<close> and the ends of every range in order, the mask the bind operation
  builds from the text of the list is the union of the items: a single CPU contributes
  itself, a range every CPU from its low to its high end, and repeated or overlapping
  items change nothing. The mask is then handed to the kernel and, when the kernel
  accepts it, cached. The argument is taken to have been duplicated.
\<close>

theorem bind_mask_is_union:
  assumes "list_all (item_valid (sint (stress_get_processors_configured env))) items"
    and "stress_const_optdup_ok env"
  shows "token_loop (sint (stress_get_processors_configured env)) (list_text items) CPU_ZERO
           = Inr (union_of_items items) \<and>
         stress_set_cpu_affinity env (list_text items) =
           (if sched_setaffinity env (union_of_items items) then Inr (union_of_items items)
            else Inl Cannot_set_affinity)"
proof -
  have "sint (stress_get_processors_configured env) < 2 ^ (LENGTH(32) - 1)"
    by (rule sint_lt)
  then have bound: "sint (stress_get_processors_configured env) \<le> 2 ^ 31"
    by simp
  have loop: "token_loop (sint (stress_get_processors_configured env)) (list_text items) CPU_ZERO
      = Inr (union_of_items items)"
    using token_loop_items [OF assms(1) bound, of CPU_ZERO] by (simp add: CPU_ZERO_def)
  then show ?thesis
    using assms(2) by (simp add: stress_set_cpu_affinity_def Let_def)
qed

theorem bind_mask_is_union_witness:
  "stress_set_cpu_affinity eight_cpus_env ''2,2,3-5,4'' = Inr {|2, 3, 4, 5|} \<and>
   stress_set_cpu_affinity eight_cpus_env ''0-7'' = Inr {|0, 1, 2, 3, 4, 5, 6, 7|}"
proof -
  have env: "sint (stress_get_processors_configured eight_cpus_env) = 8"
    "stress_const_optdup_ok eight_cpus_env"
    "\<And>cpus. sched_setaffinity eight_cpus_env cpus = (cpus \<noteq> {||})"
    by (simp_all add: eight_cpus_env_def sample_env_def)
  have vals: "cpu_value ''0'' = 0" "cpu_value ''2'' = 2" "cpu_value ''3'' = 3" "cpu_value ''4'' = 4"
    "cpu_value ''5'' = 5" "cpu_value ''7'' = 7"
    by (simp_all add: cpu_value_def digit_value_def)
  have cpus: "is_cpu ''0''" "is_cpu ''2''" "is_cpu ''3''" "is_cpu ''4''" "is_cpu ''5''" "is_cpu ''7''"
    by (simp_all add: is_cpu_def isdigit_def)
  have v1: "list_all (item_valid (sint (stress_get_processors_configured eight_cpus_env)))
      [Cpu ''2'', Cpu ''2'', Range ''3'' ''5'', Cpu ''4'']"
    by (simp add: env vals cpus)
  have v2: "list_all (item_valid (sint (stress_get_processors_configured eight_cpus_env)))
      [Range ''0'' ''7'']"
    by (simp add: env vals cpus)
  have u1: "union_of_items [Cpu ''2'', Cpu ''2'', Range ''3'' ''5'', Cpu ''4''] = {|2, 3, 4, 5|}"
    by (auto simp: union_of_items_def vals fset_of_list_elem)
  have u2: "union_of_items [Range ''0'' ''7''] = {|0, 1, 2, 3, 4, 5, 6, 7|}"
    by (auto simp: union_of_items_def vals fset_of_list_elem)
  show ?thesis
    using bind_mask_is_union [OF v1 env(2)] bind_mask_is_union [OF v2 env(2)]
    by (simp add: u1 u2 env(3))
qed

lemmas eval_defs = stress_set_cpu_affinity_def token_loop.simps strtok_def parse_token_def
  stress_parse_cpu_def sscanf_d_def isspace_def isdigit_def digit_value_def store_int_def
  stress_check_cpu_affinity_range_def set_cpus.simps CPU_SET_def CPU_ZERO_def Let_def
  sample_env_def

text \<open>
  Claim C6 as stated fails: the input "1,,2" holds an empty token and is accepted, with
  the mask \<open>{1, 2}\<close> installed.
\<close>

theorem double_comma_accepted:
  "stress_set_cpu_affinity sample_env ''1,,2'' = Inr {|1, 2|}"
  by (simp add: eval_defs) auto

lemma strtok_comma: "strtok (CHR '','' # s) '','' = strtok s '',''"
  by (simp add: strtok_def)

lemma token_loop_comma: "token_loop max_cpus (CHR '','' # s) cset = token_loop max_cpus s cset"
  by (subst (1 2) token_loop.simps) (simp add: strtok_comma)

lemma token_loop_commas:
  "set s \<subseteq> {CHR '',''} \<Longrightarrow> token_loop max_cpus (s @ r) cset = token_loop max_cpus r cset"
  by (induction s) (simp_all add: token_loop_comma)

lemma token_loop_end: "token_loop max_cpus [] cset = Inr cset"
  by (subst token_loop.simps) (simp add: strtok_def)

lemma strtok_first:
  assumes "tok \<noteq> []" and "CHR '','' \<notin> set tok"
  shows "strtok (tok @ CHR '','' # rest) '','' = Some (tok, rest)"
    and "strtok tok '','' = Some (tok, [])"
  using strtok_token [OF assms] by simp_all

lemma token_loop_double_comma:
  "token_loop max_cpus (a @ CHR '','' # CHR '','' # b) cset =
   token_loop max_cpus (a @ CHR '','' # b) cset"
proof (induction "length a" arbitrary: a cset rule: less_induct)
  case less
  define a1 where "a1 = dropWhile (\<lambda>c. c = CHR '','') a"
  define commas where "commas = takeWhile (\<lambda>c. c = CHR '','') a"
  have a: "a = commas @ a1"
    by (simp add: commas_def a1_def)
  have commas: "set commas \<subseteq> {CHR '',''}"
    using set_takeWhileD [of _ "\<lambda>c. c = CHR '',''" a] by (auto simp: commas_def)
  have skip: "token_loop max_cpus (a @ r) c = token_loop max_cpus (a1 @ r) c" for r c
    unfolding a using token_loop_commas [OF commas, of max_cpus "a1 @ r" c] by simp
  show ?case
  proof (cases "a1 = []")
    case True
    then show ?thesis
      unfolding skip by (simp add: token_loop_comma)
  next
    case False
    define tok where "tok = takeWhile (\<lambda>c. c \<noteq> CHR '','') a1"
    define a2 where "a2 = dropWhile (\<lambda>c. c \<noteq> CHR '','') a1"
    have a1: "a1 = tok @ a2"
      by (simp add: tok_def a2_def)
    have "hd a1 \<noteq> CHR '',''"
      using False hd_dropWhile [of "\<lambda>c. c = CHR '',''" a] by (simp add: a1_def)
    then have tok_ne: "tok \<noteq> []"
      using False by (cases a1) (auto simp: tok_def)
    have tok_free: "CHR '','' \<notin> set tok"
      using set_takeWhileD [of "CHR '',''" "\<lambda>c. c \<noteq> CHR '',''" a1] by (auto simp: tok_def)
    show ?thesis
    proof (cases a2)
      case Nil
      have "token_loop max_cpus (tok @ CHR '','' # CHR '','' # b) cset =
            token_loop max_cpus (tok @ CHR '','' # b) cset"
        by (subst (1 2) token_loop.simps)
          (simp add: strtok_first(1) [OF tok_ne tok_free] token_loop_comma split: sum.split)
      then show ?thesis
        unfolding skip a1 Nil by simp
    next
      case (Cons c a3)
      have "dropWhile (\<lambda>c. c \<noteq> CHR '','') a1 \<noteq> []"
        using Cons by (simp add: a2_def)
      from hd_dropWhile [OF this] have "c = CHR '',''"
        using Cons by (simp add: a2_def)
      then have a2: "a2 = CHR '','' # a3"
        using Cons by simp
      have "length a3 < length a"
        unfolding a a1 a2 by simp
      then have IH: "token_loop max_cpus (a3 @ CHR '','' # CHR '','' # b) c =
          token_loop max_cpus (a3 @ CHR '','' # b) c" for c
        by (rule less.hyps)
      have "token_loop max_cpus (tok @ CHR '','' # a3 @ CHR '','' # CHR '','' # b) cset =
            token_loop max_cpus (tok @ CHR '','' # a3 @ CHR '','' # b) cset"
        by (subst (1 2) token_loop.simps)
          (simp add: strtok_first(1) [OF tok_ne tok_free] IH split: sum.split)
      then show ?thesis
        unfolding skip a1 a2 by simp
    qed
  qed
qed

text \<open>
  Claim C6, as the code has it. \<open>strtok\<close> skips empty tokens: a doubled comma does what
  a single comma does, and a leading comma does nothing. An input made of commas only,
  the empty input among them, yields no token; the bind operation then hands the empty
  mask to the kernel and ends with the kernel-refusal diagnostic and a failure exit when
  the kernel refuses the empty mask, as Linux does.
\<close>

theorem bind_skips_empty_tokens:
  assumes "stress_const_optdup_ok env"
  shows "stress_set_cpu_affinity env (a @ '',,'' @ b) = stress_set_cpu_affinity env (a @ '','' @ b) \<and>
         stress_set_cpu_affinity env ('','' @ b) = stress_set_cpu_affinity env b \<and>
         (set arg \<subseteq> {CHR '',''} \<longrightarrow>
            stress_set_cpu_affinity env arg =
              (if sched_setaffinity env CPU_ZERO then Inr CPU_ZERO else Inl Cannot_set_affinity))"
proof -
  have "token_loop max_cpus arg CPU_ZERO = Inr CPU_ZERO" if "set arg \<subseteq> {CHR '',''}" for max_cpus
    using token_loop_commas [OF that, of max_cpus "[]" CPU_ZERO] by (simp add: token_loop_end)
  then show ?thesis
    using assms
    by (simp add: stress_set_cpu_affinity_def Let_def token_loop_double_comma token_loop_comma)
qed

theorem bind_skips_empty_tokens_witness:
  "stress_set_cpu_affinity sample_env ''1,,2'' = stress_set_cpu_affinity sample_env ''1,2'' \<and>
   stress_set_cpu_affinity sample_env '',3'' = stress_set_cpu_affinity sample_env ''3'' \<and>
   stress_set_cpu_affinity sample_env '''' = Inl Cannot_set_affinity \<and>
   stress_set_cpu_affinity sample_env '','' = Inl Cannot_set_affinity"
proof -
  have ok: "stress_const_optdup_ok sample_env" and refuses: "\<not> sched_setaffinity sample_env CPU_ZERO"
    by (simp_all add: sample_env_def CPU_ZERO_def)
  have s1: "set '''' \<subseteq> {CHR '',''}" and s2: "set '','' \<subseteq> {CHR '',''}"
    by simp_all
  show ?thesis
    using bind_skips_empty_tokens [OF ok, where a = "''1''" and b = "''2''" and arg = "''''"]
      bind_skips_empty_tokens [OF ok, where a = "''1''" and b = "''3''" and arg = "'',''"]
      refuses s1 s2
    by simp
qed

text \<open>
  Claim C7 as stated fails: the token "3 ", a numeral followed by a space, is accepted as
  CPU 3.
\<close>

theorem trailing_space_accepted:
  "stress_set_cpu_affinity sample_env ''3 '' = Inr {|3|}"
  by (simp add: eval_defs)

lemma no_integer_sscanf: "no_integer tok \<Longrightarrow> sscanf_d tok = None"
  by (auto simp: no_integer_def sscanf_d_def Let_def)

lemma parse_token_no_integer: "no_integer tok \<Longrightarrow> parse_token max_cpus tok = Inl (Invalid_number tok)"
  by (simp add: parse_token_def stress_parse_cpu_def no_integer_sscanf)

lemma token_loop_prefix:
  assumes "list_all (item_valid max_cpus) items" and "max_cpus \<le> 2 ^ 31"
  shows "token_loop max_cpus (items_prefix items @ s) cset =
         token_loop max_cpus s (cset |\<union>| union_of_items items)"
  using assms(1)
proof (induction items arbitrary: cset)
  case Nil
  show ?case by (simp add: items_prefix_def union_of_items_def)
next
  case (Cons x xs)
  then have valid: "item_valid max_cpus x" and rest: "list_all (item_valid max_cpus) xs"
    by simp_all
  obtain lo hi where tok: "parse_token max_cpus (item_text x) = Inr (lo, hi)"
    and cpus: "fset_of_list [lo..hi] = item_cpus x"
    using parse_token_item [OF valid assms(2)] by blast
  have shape: "items_prefix (x # xs) @ s = item_text x @ CHR '','' # (items_prefix xs @ s)"
    by (simp add: items_prefix_def)
  have IH: "token_loop max_cpus (items_prefix xs @ s) c =
      token_loop max_cpus s (c |\<union>| union_of_items xs)" for c
    using Cons.IH [OF rest] .
  show ?case
    unfolding shape
    using item_text_token [OF valid]
    by (subst token_loop.simps)
      (simp add: strtok_first(1) tok IH set_cpus_union cpus union_of_items_def funion_assoc)
qed

text \<open>
  Claim C7, as the code has it. A token in which no integer is found (after optional
  white space and an optional sign no digit follows), such as "a", is rejected: when
  the items before it are valid, the bind operation ends with the diagnostic that names
  this token and a failure exit. What follows a leading integer in a token is not
  looked at.
\<close>

theorem bind_rejects_token_without_integer:
  assumes "stress_const_optdup_ok env"
    and "list_all (item_valid (sint (stress_get_processors_configured env))) items"
    and "tok \<noteq> []" and "CHR '','' \<notin> set tok" and "no_integer tok"
    and "rest = [] \<or> hd rest = CHR '',''"
  shows "stress_set_cpu_affinity env (items_prefix items @ tok @ rest) = Inl (Invalid_number tok)"
proof -
  let ?max = "sint (stress_get_processors_configured env)"
  have "?max < 2 ^ (LENGTH(32) - 1)"
    by (rule sint_lt)
  then have bound: "?max \<le> 2 ^ 31"
    by simp
  have first: "\<exists>r. strtok (tok @ rest) '','' = Some (tok, r)"
  proof (cases rest)
    case Nil
    then show ?thesis using strtok_first(2) [OF assms(3,4)] by simp
  next
    case (Cons c r)
    with assms(6) have "rest = CHR '','' # r" by simp
    then show ?thesis using strtok_first(1) [OF assms(3,4)] by simp
  qed
  have "token_loop ?max (tok @ rest) c = Inl (Invalid_number tok)" for c
    using first by (subst token_loop.simps) (auto simp: parse_token_no_integer [OF assms(5)])
  then have "token_loop ?max (items_prefix items @ tok @ rest) CPU_ZERO = Inl (Invalid_number tok)"
    by (simp add: token_loop_prefix [OF assms(2) bound])
  then show ?thesis
    using assms(1) by (simp add: stress_set_cpu_affinity_def Let_def)
qed

theorem bind_rejects_token_without_integer_witness:
  "stress_set_cpu_affinity sample_env ''a'' = Inl (Invalid_number ''a'') \<and>
   stress_set_cpu_affinity sample_env ''1,2-3, x,0'' = Inl (Invalid_number '' x'')"
proof -
  have ok: "stress_const_optdup_ok sample_env"
    and cpus: "sint (stress_get_processors_configured sample_env) = 4"
    by (simp_all add: sample_env_def)
  have none: "list_all (item_valid (sint (stress_get_processors_configured sample_env))) []"
    by simp
  have two: "list_all (item_valid (sint (stress_get_processors_configured sample_env)))
      [Cpu ''1'', Range ''2'' ''3'']"
    by (simp add: cpus is_cpu_def isdigit_def cpu_value_def digit_value_def)
  have a: "''a'' \<noteq> []" "CHR '','' \<notin> set ''a''" "no_integer ''a''" "[] = [] \<or> hd [] = CHR '',''"
    by (simp_all add: no_integer_def isspace_def isdigit_def)
  have x: "'' x'' \<noteq> []" "CHR '','' \<notin> set '' x''" "no_integer '' x''"
    "'',0'' = [] \<or> hd '',0'' = CHR '',''"
    by (simp_all add: no_integer_def isspace_def isdigit_def)
  show ?thesis
    using bind_rejects_token_without_integer [OF ok none a]
      bind_rejects_token_without_integer [OF ok two x]
    by (simp add: items_prefix_def)
qed

text \<open>What the sample host with four processors does with the other inputs the spec lists
  as rejected.\<close>

lemma minus_three_rejected:
  "stress_set_cpu_affinity sample_env ''-3'' = Inl (Not_allowed (- 3) 3)"
  by (simp add: eval_defs)

lemma dangling_minus_rejected:
  "stress_set_cpu_affinity sample_env ''3-'' = Inl (Expecting_number ''3-'')"
  by (simp add: eval_defs)

lemma descending_range_rejected:
  "stress_set_cpu_affinity sample_env ''3-1'' = Inl (Invalid_range ''3-1'')"
  by (simp add: eval_defs)

lemma letter_rejected:
  "stress_set_cpu_affinity sample_env ''a'' = Inl (Invalid_number ''a'')"
  by (simp add: eval_defs)

lemma max_cpus_rejected:
  "stress_set_cpu_affinity sample_env ''4'' = Inl (Not_allowed 4 3)"
  by (simp add: eval_defs)

lemma empty_input_refused:
  "stress_set_cpu_affinity sample_env '''' = Inl Cannot_set_affinity"
  by (simp add: eval_defs)

lemma single_comma_refused:
  "stress_set_cpu_affinity sample_env '','' = Inl Cannot_set_affinity"
  by (simp add: eval_defs)

lemma list_with_range_accepted:
  "stress_set_cpu_affinity sample_env ''0,2-3'' = Inr {|0,2,3|}"
  by (simp add: eval_defs) auto
end
